theory Spec2Isabelle
  imports Complex_Main "HOL-Library.Word" "HOL-Library.Multiset"
begin

section \<open>The gallery of the app template: \<^verbatim>\<open>src/lib/gallery.ts\<close>\<close>

text \<open>
  The module keeps the gallery state of the application in step with the user's WNFS
  file system. Its four exported functions are asynchronous: they read and update the
  \<^verbatim>\<open>galleryStore\<close>, call the file system handle held by \<^verbatim>\<open>filesystemStore\<close> and write
  to the console. The embedding makes all of that explicit: a world record holds the
  gallery state, the state of the file system and the sequence of observable effects in
  program order, and every function is a world transformer that may also throw.
\<close>

subsection \<open>Data model\<close>

datatype AREAS = PUBLIC | PRIVATE

type_synonym byte = "8 word"

text \<open>
  \<^verbatim>\<open>Image\<close>. The fields \<^verbatim>\<open>id\<close>, \<^verbatim>\<open>private\<close> and \<^verbatim>\<open>size\<close> carry a suffix, their
  plain names being taken in Isabelle. \<^verbatim>\<open>mtime\<close> is a Unix time stamp, an integer.
\<close>

record Image =
  id_img :: nat
  mtime :: int
  name :: string
  private_img :: bool
  size_img :: nat
  src :: string

text \<open>\<^verbatim>\<open>Gallery\<close>; \<^verbatim>\<open>null\<close> is \<open>None\<close>.\<close>

record Gallery =
  publicImages :: "Image list option"
  privateImages :: "Image list option"
  selectedArea :: AREAS
  loading :: bool

fun GALLERY_DIRS :: "AREAS \<Rightarrow> string list" where
  "GALLERY_DIRS PUBLIC = [''public'', ''gallery'']"
| "GALLERY_DIRS PRIVATE = [''private'', ''gallery'']"

definition FILE_SIZE_LIMIT :: real where
  "FILE_SIZE_LIMIT = 5"

text \<open>
  What can be thrown and caught: an \<^verbatim>\<open>Error\<close> object, with its message, made by the
  module itself or by the path functions of \<^verbatim>\<open>webnative\<close>, or whatever a call of the file
  system rejects with.
\<close>

datatype thrown = Error string | StoreFailure string

text \<open>
  Values of the \<^verbatim>\<open>webnative\<close> library, which is not part of the repository:
  \<^verbatim>\<open>wn.path.directory(...segments)\<close> and \<^verbatim>\<open>wn.path.file(...segments)\<close> build a path from
  its segments, and throw an \<^verbatim>\<open>Error\<close> when a segment contains a forward slash.
\<close>

datatype path = DirectoryPath "string list" | FilePath "string list"

definition pathError :: thrown where
  "pathError = Error ''Forward slashes `/` are not allowed''"

definition hasSlash :: "string list \<Rightarrow> bool" where
  "hasSlash segs = list_ex (\<lambda>seg. CHR ''/'' \<in> set seg) segs"

definition wn_path_directory :: "string list \<Rightarrow> thrown + path" where
  "wn_path_directory segs = (if hasSlash segs then Inl pathError else Inr (DirectoryPath segs))"

definition wn_path_file :: "string list \<Rightarrow> thrown + path" where
  "wn_path_file segs = (if hasSlash segs then Inl pathError else Inr (FilePath segs))"

text \<open>
  The browser's \<^verbatim>\<open>File\<close>: a name and a content; \<^verbatim>\<open>File.size\<close> is the number of bytes of
  the content.
\<close>

record File =
  file_name :: string
  file_content :: "byte list"

definition file_size :: "File \<Rightarrow> nat" where
  "file_size img = length (file_content img)"

text \<open>
  What the file system returns: \<^verbatim>\<open>fs.ls\<close> an object from names to links, of which the
  code reads \<^verbatim>\<open>size\<close>; \<^verbatim>\<open>fs.get\<close> a file, of which the code reads \<^verbatim>\<open>content\<close> and
  \<^verbatim>\<open>header.metadata.unixMeta.mtime\<close>. The object of links is the list of its entries in
  the order of \<^verbatim>\<open>Object.entries\<close>.
\<close>

record Link =
  link_size :: nat

record FileNode =
  content :: "byte list"
  unixMeta_mtime :: int

text \<open>
  The file system handle. \<^verbatim>\<open>webnative\<close> is an external library, so its six operations
  are parameters of the model, over a state \<open>'s\<close> of the store that is left abstract. A
  call either rejects or resolves; \<^verbatim>\<open>write\<close>, \<^verbatim>\<open>rm\<close> and \<^verbatim>\<open>publish\<close> resolve with a new
  state of the store.
\<close>

record 's FileSystem =
  fs_ls :: "path \<Rightarrow> 's \<Rightarrow> thrown + (string \<times> Link) list"
  fs_get :: "path \<Rightarrow> 's \<Rightarrow> thrown + FileNode"
  fs_exists :: "path \<Rightarrow> 's \<Rightarrow> thrown + bool"
  fs_write :: "path \<Rightarrow> File \<Rightarrow> 's \<Rightarrow> thrown + 's"
  fs_rm :: "path \<Rightarrow> 's \<Rightarrow> thrown + 's"
  fs_publish :: "'s \<Rightarrow> thrown + 's"

text \<open>
  The observable effects: the calls of the file system (recorded when the call is made,
  whether it later rejects or not), the updates of \<^verbatim>\<open>galleryStore\<close> with the value
  written, and the console. Of a \<^verbatim>\<open>console.log\<close> with a label and an object only the
  label is kept.
\<close>

datatype event =
    Ls path
  | Get path
  | Exists path
  | Write path File
  | Rm path
  | Publish
  | Update Gallery
  | ConsoleLog string
  | ConsoleLogThrown thrown
  | ConsoleError thrown

fun isStoreCall :: "event \<Rightarrow> bool" where
  "isStoreCall (Ls p) = True"
| "isStoreCall (Get p) = True"
| "isStoreCall (Exists p) = True"
| "isStoreCall (Write p f) = True"
| "isStoreCall (Rm p) = True"
| "isStoreCall Publish = True"
| "isStoreCall e = False"

definition storeCalls :: "event list \<Rightarrow> event list" where
  "storeCalls es = filter isStoreCall es"

text \<open>
  The world: the value of \<^verbatim>\<open>galleryStore\<close>, the state of the store behind the handle in
  \<^verbatim>\<open>filesystemStore\<close>, the effects so far (oldest first) and the supply of \<^verbatim>\<open>uuid()\<close>.
\<close>

record 's World =
  galleryStore :: Gallery
  filesystemStore :: 's
  trace :: "event list"
  nextUuid :: nat

subsection \<open>Asynchronous code as world transformers with exceptions\<close>

type_synonym ('s, 'a) prog = "'s World \<Rightarrow> (thrown + 'a) \<times> 's World"

definition pure :: "'a \<Rightarrow> ('s, 'a) prog" where
  "pure x w = (Inr x, w)"

definition throw :: "thrown \<Rightarrow> ('s, 'a) prog" where
  "throw e w = (Inl e, w)"

text \<open>An expression that gives a value or throws, and leaves the world as it is.\<close>

definition evaluate :: "thrown + 'a \<Rightarrow> ('s, 'a) prog" where
  "evaluate r w = (r, w)"

text \<open>Sequencing: a statement that throws skips the rest of the block.\<close>

definition andThen :: "('s, 'a) prog \<Rightarrow> ('a \<Rightarrow> ('s, 'b) prog) \<Rightarrow> ('s, 'b) prog" where
  "andThen m f w = (case m w of (Inl e, w1) \<Rightarrow> (Inl e, w1) | (Inr x, w1) \<Rightarrow> f x w1)"

text \<open>\<^verbatim>\<open>try { body } catch (error) { handler }\<close>\<close>

definition tryCatch :: "('s, 'a) prog \<Rightarrow> (thrown \<Rightarrow> ('s, 'a) prog) \<Rightarrow> ('s, 'a) prog" where
  "tryCatch body handler w =
     (case body w of (Inl e, w1) \<Rightarrow> handler e w1 | (Inr x, w1) \<Rightarrow> (Inr x, w1))"

definition emit :: "event \<Rightarrow> ('s, unit) prog" where
  "emit e w = (Inr (), w\<lparr>trace := trace w @ [e]\<rparr>)"

text \<open>\<^verbatim>\<open>getStore(galleryStore)\<close> and \<^verbatim>\<open>galleryStore.update(f)\<close>\<close>

definition getStore_gallery :: "('s, Gallery) prog" where
  "getStore_gallery w = (Inr (galleryStore w), w)"

definition updateGallery :: "(Gallery \<Rightarrow> Gallery) \<Rightarrow> ('s, unit) prog" where
  "updateGallery f w =
     (let g = f (galleryStore w)
      in (Inr (), w\<lparr>galleryStore := g, trace := trace w @ [Update g]\<rparr>))"

text \<open>
  An awaited call of the file system that only reads, and one that changes the store. The
  call is recorded, then it resolves or rejects on the state of the store.
\<close>

definition awaitRead :: "event \<Rightarrow> ('s \<Rightarrow> thrown + 'a) \<Rightarrow> ('s, 'a) prog" where
  "awaitRead e op w = (op (filesystemStore w), w\<lparr>trace := trace w @ [e]\<rparr>)"

definition awaitWrite :: "event \<Rightarrow> ('s \<Rightarrow> thrown + 's) \<Rightarrow> ('s, unit) prog" where
  "awaitWrite e op w =
     (case op (filesystemStore w) of
        Inl err \<Rightarrow> (Inl err, w\<lparr>trace := trace w @ [e]\<rparr>)
      | Inr s \<Rightarrow> (Inr (), w\<lparr>filesystemStore := s, trace := trace w @ [e]\<rparr>))"

text \<open>
  Modelled from the spec: \<^verbatim>\<open>uuid\<close> of \<^verbatim>\<open>$lib/common/utils\<close>, which is not among the
  sources. It gives a process-local unique identifier, regenerated at each listing; the
  model hands out the next value of a counter.
\<close>

definition uuid :: "('s, nat) prog" where
  "uuid w = (Inr (nextUuid w), w\<lparr>nextUuid := Suc (nextUuid w)\<rparr>)"

subsection \<open>The inline representation of an image\<close>

text \<open>
  Modelled from the spec: \<^verbatim>\<open>convertUint8ToString\<close> of \<^verbatim>\<open>$lib/common/utils\<close>, which is not
  among the sources. It turns the bytes of a file into a binary string, one character of
  the same code for each byte, which is what \<^verbatim>\<open>btoa\<close> takes.
\<close>

definition convertUint8ToString :: "byte list \<Rightarrow> string" where
  "convertUint8ToString uIntArray = map (\<lambda>b. char_of (unat b)) uIntArray"

text \<open>
  \<^verbatim>\<open>btoa\<close> is the browser's Base64 encoder (RFC 4648, with padding): three characters
  of the binary string give four characters of the alphabet.
\<close>

definition base64Alphabet :: string where
  "base64Alphabet = ''ABCDEFGHIJKLMNOPQRSTUVWXYZabcdefghijklmnopqrstuvwxyz0123456789+/''"

definition base64Char :: "nat \<Rightarrow> char" where
  "base64Char n = base64Alphabet ! n"

fun btoaCodes :: "nat list \<Rightarrow> string" where
  "btoaCodes [] = []"
| "btoaCodes [a] =
     [base64Char (a div 4), base64Char ((a mod 4) * 16), CHR ''='', CHR ''='']"
| "btoaCodes [a, b] =
     [base64Char (a div 4), base64Char ((a mod 4) * 16 + b div 16),
      base64Char ((b mod 16) * 4), CHR ''='']"
| "btoaCodes (a # b # c # rest) =
     [base64Char (a div 4), base64Char ((a mod 4) * 16 + b div 16),
      base64Char ((b mod 16) * 4 + c div 64), base64Char (c mod 64)] @ btoaCodes rest"

definition btoa :: "string \<Rightarrow> string" where
  "btoa s = btoaCodes (map of_char s)"

text \<open>
  The template literal of \<^verbatim>\<open>src\<close>; there is a space after the comma.
\<close>

definition imageSrc :: "byte list \<Rightarrow> string" where
  "imageSrc bytes = ''data:image/jpeg;base64, '' @ btoa (convertUint8ToString bytes)"

text \<open>
  The way back, which the module does not contain and the browser takes when it renders
  the \<^verbatim>\<open>src\<close>: the payload of a data URL is what follows the first comma, white space
  skipped; \<^verbatim>\<open>atob\<close> decodes Base64, four characters giving three, two or one
  character according to the padding; the characters of the binary string are the bytes.
\<close>

fun indexOf :: "char \<Rightarrow> string \<Rightarrow> nat" where
  "indexOf c [] = 0"
| "indexOf c (x # xs) = (if x = c then 0 else Suc (indexOf c xs))"

definition base64Index :: "char \<Rightarrow> nat" where
  "base64Index c = indexOf c base64Alphabet"

fun atobCodes :: "string \<Rightarrow> nat list" where
  "atobCodes (c1 # c2 # c3 # c4 # rest) =
     (if c3 = CHR ''='' then [base64Index c1 * 4 + base64Index c2 div 16]
      else if c4 = CHR ''=''
      then [base64Index c1 * 4 + base64Index c2 div 16,
            (base64Index c2 mod 16) * 16 + base64Index c3 div 4]
      else [base64Index c1 * 4 + base64Index c2 div 16,
            (base64Index c2 mod 16) * 16 + base64Index c3 div 4,
            (base64Index c3 mod 4) * 64 + base64Index c4] @ atobCodes rest)"
| "atobCodes s = []"

definition atob :: "string \<Rightarrow> string" where
  "atob s = map char_of (atobCodes s)"

definition dataUrlPayload :: "string \<Rightarrow> string" where
  "dataUrlPayload url =
     dropWhile (\<lambda>c. c = CHR '' '') (drop 1 (dropWhile (\<lambda>c. c \<noteq> CHR '','') url))"

definition dataUrlBytes :: "string \<Rightarrow> byte list" where
  "dataUrlBytes url = map (\<lambda>c. of_nat (of_char c)) (atob (dataUrlPayload url))"

subsection \<open>Sorting\<close>

text \<open>
  \<^verbatim>\<open>Array.prototype.sort\<close> with a comparison function. The sort of ECMAScript is stable;
  it is modelled as the insertion sort that puts an element before the first later
  element it does not follow, so that elements the comparison function gives 0 for keep
  their order.
\<close>

fun insertBy :: "('a \<Rightarrow> 'a \<Rightarrow> int) \<Rightarrow> 'a \<Rightarrow> 'a list \<Rightarrow> 'a list" where
  "insertBy cmp x [] = [x]"
| "insertBy cmp x (y # ys) = (if cmp x y \<le> 0 then x # y # ys else y # insertBy cmp x ys)"

definition sortBy :: "('a \<Rightarrow> 'a \<Rightarrow> int) \<Rightarrow> 'a list \<Rightarrow> 'a list" where
  "sortBy cmp xs = foldr (insertBy cmp) xs []"

text \<open>\<^verbatim>\<open>(a, b) => b.mtime - a.mtime\<close>\<close>

definition byMtime :: "Image \<Rightarrow> Image \<Rightarrow> int" where
  "byMtime a b = mtime b - mtime a"

subsection \<open>\<^verbatim>\<open>getImagesFromWNFS\<close>\<close>

text \<open>
  \<^verbatim>\<open>Promise.all\<close> over the entries of the listing. Mapping the asynchronous callback
  over the entries runs each callback up to its \<^verbatim>\<open>await\<close>: every \<^verbatim>\<open>fs.get\<close> is called,
  in the order of the entries, before any of them resolves; a callback whose path cannot
  be built throws before its call, and so rejects without one. The rest of each callback
  runs when its file has arrived; it touches the console and the supply of identifiers
  only, and the calls only read the store, so the model runs the callbacks in the order
  of the entries. \<^verbatim>\<open>Promise.all\<close> resolves with the results in the order of the entries
  when every callback has resolved, and rejects when one rejects; the callbacks that are
  still pending then run all the same, their results being dropped. The model reports the
  rejection of the first entry that rejects.
\<close>

text \<open>
  The path of a file of the gallery of an area:
  \<^verbatim>\<open>wn.path.file(...GALLERY_DIRS[selectedArea], name)\<close>.
\<close>

definition getPath :: "AREAS \<Rightarrow> string \<Rightarrow> thrown + path" where
  "getPath area fileName = wn_path_file (GALLERY_DIRS area @ [fileName])"

text \<open>The path it gives when it does not throw.\<close>

definition galleryFile :: "AREAS \<Rightarrow> string \<Rightarrow> path" where
  "galleryFile area fileName = FilePath (GALLERY_DIRS area @ [fileName])"

definition fetchCall :: "AREAS \<Rightarrow> string \<times> Link \<Rightarrow> ('s, unit) prog" where
  "fetchCall area entry =
     (case getPath area (fst entry) of Inl e \<Rightarrow> pure () | Inr p \<Rightarrow> emit (Get p))"

definition fetchRest ::
  "'s FileSystem \<Rightarrow> AREAS \<Rightarrow> bool \<Rightarrow> string \<times> Link \<Rightarrow> ('s, Image) prog" where
  "fetchRest fs area isPrivate entry =
     andThen (evaluate (getPath area (fst entry))) (\<lambda>p.
     andThen (\<lambda>w. (fs_get fs p (filesystemStore w), w)) (\<lambda>file.
     andThen (emit (ConsoleLog ''file'')) (\<lambda>_.
     andThen uuid (\<lambda>i.
     pure \<lparr>id_img = i, mtime = unixMeta_mtime file, name = fst entry,
           private_img = isPrivate, size_img = link_size (snd entry),
           src = imageSrc (content file)\<rparr>))))"

fun callAll :: "('s, unit) prog list \<Rightarrow> ('s, unit) prog" where
  "callAll [] = pure ()"
| "callAll (c # cs) = andThen c (\<lambda>_. callAll cs)"

fun settleAll :: "('s, 'a) prog list \<Rightarrow> 's World \<Rightarrow> (thrown + 'a) list \<times> 's World" where
  "settleAll [] w = ([], w)"
| "settleAll (p # ps) w =
     (case p w of (r, w1) \<Rightarrow> (case settleAll ps w1 of (rs, w2) \<Rightarrow> (r # rs, w2)))"

fun allOrFirstRejection :: "(thrown + 'a) list \<Rightarrow> thrown + 'a list" where
  "allOrFirstRejection [] = Inr []"
| "allOrFirstRejection (Inl e # rs) = Inl e"
| "allOrFirstRejection (Inr x # rs) =
     (case allOrFirstRejection rs of Inl e \<Rightarrow> Inl e | Inr xs \<Rightarrow> Inr (x # xs))"

definition promiseAll ::
  "('s, unit) prog list \<Rightarrow> ('s, 'a) prog list \<Rightarrow> ('s, 'a list) prog" where
  "promiseAll calls rests =
     andThen (callAll calls) (\<lambda>_ w.
       case settleAll rests w of (rs, w1) \<Rightarrow> (allOrFirstRejection rs, w1))"

text \<open>The calls of \<^verbatim>\<open>fs.get\<close> that the callbacks make for a listing.\<close>

definition getCalls :: "AREAS \<Rightarrow> (string \<times> Link) list \<Rightarrow> event list" where
  "getCalls area links =
     concat (map (\<lambda>entry. case getPath area (fst entry) of Inl e \<Rightarrow> [] | Inr p \<Rightarrow> [Get p])
                 links)"

definition pushImages :: "bool \<Rightarrow> Image list \<Rightarrow> Gallery \<Rightarrow> Gallery" where
  "pushImages isPrivate images store =
     (if isPrivate then store\<lparr>privateImages := Some images, loading := False\<rparr>
      else store\<lparr>publicImages := Some images, loading := False\<rparr>)"

text \<open>The \<^verbatim>\<open>try\<close> block and the whole function.\<close>

definition getImagesFromWNFS_try :: "'s FileSystem \<Rightarrow> ('s, unit) prog" where
  "getImagesFromWNFS_try fs =
     andThen (updateGallery (\<lambda>store. store\<lparr>loading := True\<rparr>)) (\<lambda>_.
     andThen getStore_gallery (\<lambda>g.
     let area = selectedArea g;
         isPrivate = (area = PRIVATE)
     in
     andThen (evaluate (wn_path_directory (GALLERY_DIRS area))) (\<lambda>path.
     andThen (awaitRead (Ls path) (fs_ls fs path)) (\<lambda>links.
     andThen (emit (ConsoleLog ''links'')) (\<lambda>_.
     andThen (promiseAll (map (fetchCall area) links)
                         (map (fetchRest fs area isPrivate) links)) (\<lambda>images.
     let sorted_images = sortBy byMtime images
     in
     andThen (emit (ConsoleLog ''images'')) (\<lambda>_.
     updateGallery (pushImages isPrivate sorted_images))))))))"

definition getImagesFromWNFS :: "'s FileSystem \<Rightarrow> ('s, unit) prog" where
  "getImagesFromWNFS fs =
     tryCatch (getImagesFromWNFS_try fs)
       (\<lambda>error.
        andThen (emit (ConsoleError error)) (\<lambda>_.
        updateGallery (\<lambda>store. store\<lparr>loading := False\<rparr>)))"

subsection \<open>\<^verbatim>\<open>uploadImageToWNFS\<close>\<close>

text \<open>
  \<^verbatim>\<open>image.size / (1024 * 1024)\<close> is a division of floating-point numbers. The size is
  a natural number below \<open>2\<^sup>5\<^sup>3\<close> and the divisor a power of two, so the quotient is
  exact and the comparison with 5 is the comparison of the real numbers.
\<close>

definition sizeError :: thrown where
  "sizeError = Error ''Image can be no larger than 5MB''"

definition existsError :: "string \<Rightarrow> thrown" where
  "existsError fileName = Error (fileName @ '' image alread exists'')"

definition deletedError :: "string \<Rightarrow> thrown" where
  "deletedError fileName = Error (fileName @ '' image has already been deleted'')"

definition uploadImageToWNFS_try :: "'s FileSystem \<Rightarrow> File \<Rightarrow> ('s, unit) prog" where
  "uploadImageToWNFS_try fs img =
     andThen getStore_gallery (\<lambda>g.
     let area = selectedArea g
     in
     andThen (emit (ConsoleLog ''image'')) (\<lambda>_.
     let imageSizeInMB = real (file_size img) / (1024 * 1024)
     in
     andThen (if imageSizeInMB > FILE_SIZE_LIMIT then throw sizeError else pure ()) (\<lambda>_.
     andThen (evaluate (getPath area (file_name img))) (\<lambda>checked.
     andThen (awaitRead (Exists checked) (fs_exists fs checked)) (\<lambda>imageExists.
     if \<not> imageExists then
       andThen (evaluate (getPath area (file_name img))) (\<lambda>written.
       andThen (awaitWrite (Write written img) (fs_write fs written img)) (\<lambda>_.
       andThen (awaitWrite Publish (fs_publish fs)) (\<lambda>_.
       emit (ConsoleLog (file_name img @ '' image has been published'')))))
     else throw (existsError (file_name img)))))))"

definition uploadImageToWNFS :: "'s FileSystem \<Rightarrow> File \<Rightarrow> ('s, unit) prog" where
  "uploadImageToWNFS fs img =
     tryCatch (uploadImageToWNFS_try fs img) (\<lambda>error. emit (ConsoleLogThrown error))"

subsection \<open>\<^verbatim>\<open>deleteImageFromWNFS\<close>\<close>

definition deleteImageFromWNFS_try :: "'s FileSystem \<Rightarrow> string \<Rightarrow> ('s, unit) prog" where
  "deleteImageFromWNFS_try fs fileName =
     andThen getStore_gallery (\<lambda>g.
     let area = selectedArea g
     in
     andThen (evaluate (getPath area fileName)) (\<lambda>checked.
     andThen (awaitRead (Exists checked) (fs_exists fs checked)) (\<lambda>imageExists.
     if imageExists then
       andThen (evaluate (getPath area fileName)) (\<lambda>removed.
       andThen (awaitWrite (Rm removed) (fs_rm fs removed)) (\<lambda>_.
       andThen (awaitWrite Publish (fs_publish fs)) (\<lambda>_.
       andThen (emit (ConsoleLog (fileName @ '' image has been deleted''))) (\<lambda>_.
       getImagesFromWNFS fs))))
     else throw (deletedError fileName))))"

definition deleteImageFromWNFS :: "'s FileSystem \<Rightarrow> string \<Rightarrow> ('s, unit) prog" where
  "deleteImageFromWNFS fs fileName =
     tryCatch (deleteImageFromWNFS_try fs fileName) (\<lambda>error. emit (ConsoleError error))"

subsection \<open>Uploads as resumable tasks; \<^verbatim>\<open>handleFileInput\<close>\<close>

text \<open>
  \<^verbatim>\<open>handleFileInput\<close> starts one upload for each file and awaits them together, so the
  uploads interleave: each runs until its next \<^verbatim>\<open>await\<close>, and which of the suspended
  uploads goes on next depends on which call of the file system resolves first. An upload
  is therefore also given as a task that stops at each \<^verbatim>\<open>await\<close>. A suspended task holds
  what the closure of the call holds, the area read at entry and the file, and the path
  given to the call it awaits; the path of a call is built from the area and the name
  when the call is made, as in the source. A call of the file system is recorded when it
  is made and takes effect on the store when the task is resumed. A task has caught and
  logged whatever it threw when it is settled.
\<close>

datatype uploadTask =
    AtExists AREAS File path
  | AtWrite AREAS File path
  | AtPublish AREAS File
  | Settled

definition logged :: "thrown \<Rightarrow> 's World \<Rightarrow> 's World" where
  "logged e w = w\<lparr>trace := trace w @ [ConsoleLogThrown e]\<rparr>"

definition called :: "event \<Rightarrow> 's World \<Rightarrow> 's World" where
  "called e w = w\<lparr>trace := trace w @ [e]\<rparr>"

definition uploadStart :: "File \<Rightarrow> 's World \<Rightarrow> uploadTask \<times> 's World" where
  "uploadStart img w =
     (let area = selectedArea (galleryStore w);
          w1 = called (ConsoleLog ''image'') w;
          imageSizeInMB = real (file_size img) / (1024 * 1024)
      in if imageSizeInMB > FILE_SIZE_LIMIT then (Settled, logged sizeError w1)
         else (case getPath area (file_name img) of
                 Inl e \<Rightarrow> (Settled, logged e w1)
               | Inr checked \<Rightarrow> (AtExists area img checked, called (Exists checked) w1)))"

fun uploadResume :: "'s FileSystem \<Rightarrow> uploadTask \<Rightarrow> 's World \<Rightarrow> uploadTask \<times> 's World" where
  "uploadResume fs (AtExists area img checked) w =
     (case fs_exists fs checked (filesystemStore w) of
        Inl e \<Rightarrow> (Settled, logged e w)
      | Inr imageExists \<Rightarrow>
          if \<not> imageExists
          then (case getPath area (file_name img) of
                  Inl e \<Rightarrow> (Settled, logged e w)
                | Inr written \<Rightarrow> (AtWrite area img written, called (Write written img) w))
          else (Settled, logged (existsError (file_name img)) w))"
| "uploadResume fs (AtWrite area img written) w =
     (case fs_write fs written img (filesystemStore w) of
        Inl e \<Rightarrow> (Settled, logged e w)
      | Inr s \<Rightarrow> (AtPublish area img, called Publish (w\<lparr>filesystemStore := s\<rparr>)))"
| "uploadResume fs (AtPublish area img) w =
     (case fs_publish fs (filesystemStore w) of
        Inl e \<Rightarrow> (Settled, logged e w)
      | Inr s \<Rightarrow>
          (Settled, called (ConsoleLog (file_name img @ '' image has been published''))
                      (w\<lparr>filesystemStore := s\<rparr>)))"
| "uploadResume fs Settled w = (Settled, w)"

text \<open>
  What other tasks may do to the gallery state and to the store while a task is
  suspended.
\<close>

type_synonym 's interference = "Gallery \<times> 's \<Rightarrow> Gallery \<times> 's"

definition meanwhile :: "'s interference \<Rightarrow> 's World \<Rightarrow> 's World" where
  "meanwhile i w =
     (case i (galleryStore w, filesystemStore w) of
        (g, s) \<Rightarrow> w\<lparr>galleryStore := g, filesystemStore := s\<rparr>)"

text \<open>
  One upload from its call to its end, with other tasks running at each of its three
  suspensions.
\<close>

definition uploadAmid ::
  "'s FileSystem \<Rightarrow> 's interference \<Rightarrow> 's interference \<Rightarrow> 's interference \<Rightarrow> File
     \<Rightarrow> 's World \<Rightarrow> 's World" where
  "uploadAmid fs i1 i2 i3 img w =
     (case uploadStart img w of (t0, w0) \<Rightarrow>
      case uploadResume fs t0 (meanwhile i1 w0) of (t1, w1) \<Rightarrow>
      case uploadResume fs t1 (meanwhile i2 w1) of (t2, w2) \<Rightarrow>
      case uploadResume fs t2 (meanwhile i3 w2) of (t3, w3) \<Rightarrow> w3)"

text \<open>
  The uploads of a batch. \<^verbatim>\<open>Array.from(files).map\<close> starts them in the order of the
  files. Then, as long as an upload is suspended, one of the suspended uploads is
  resumed: the schedule, a list of numbers, says which (the number taken modulo the
  number of suspended uploads; the first of them once the schedule is used up).
\<close>

fun startUploads :: "File list \<Rightarrow> 's World \<Rightarrow> uploadTask list \<times> 's World" where
  "startUploads [] w = ([], w)"
| "startUploads (f # fs) w =
     (case uploadStart f w of (t, w1) \<Rightarrow>
      case startUploads fs w1 of (ts, w2) \<Rightarrow> (t # ts, w2))"

definition pendingUploads :: "uploadTask list \<Rightarrow> nat list" where
  "pendingUploads ts = filter (\<lambda>k. ts ! k \<noteq> Settled) [0..<length ts]"

fun awaitsLeft :: "uploadTask \<Rightarrow> nat" where
  "awaitsLeft (AtExists area img checked) = 3"
| "awaitsLeft (AtWrite area img written) = 2"
| "awaitsLeft (AtPublish area img) = 1"
| "awaitsLeft Settled = 0"

definition nextUpload :: "nat list \<Rightarrow> nat list \<Rightarrow> nat" where
  "nextUpload sched pending =
     (case sched of [] \<Rightarrow> hd pending | c # cs \<Rightarrow> pending ! (c mod length pending))"

function settleUploads ::
  "'s FileSystem \<Rightarrow> nat list \<Rightarrow> uploadTask list \<Rightarrow> 's World \<Rightarrow> uploadTask list \<times> 's World" where
  "settleUploads fs sched ts w =
     (if pendingUploads ts = [] then (ts, w)
      else (case uploadResume fs (ts ! nextUpload sched (pendingUploads ts)) w of
              (t, w1) \<Rightarrow>
                settleUploads fs (tl sched) (ts[nextUpload sched (pendingUploads ts) := t]) w1))"
  by pat_completeness auto

text \<open>
  One resumption of the upload at a position of the batch, and an upload resumed until it
  has settled with no other task in between; an upload has at most three suspensions.
\<close>

definition resumeAt ::
  "'s FileSystem \<Rightarrow> uploadTask list \<times> 's World \<Rightarrow> nat \<Rightarrow> uploadTask list \<times> 's World" where
  "resumeAt fs batch k =
     (case batch of (ts, w) \<Rightarrow>
      case uploadResume fs (ts ! k) w of (t, w1) \<Rightarrow> (ts[k := t], w1))"

definition runUpload :: "'s FileSystem \<Rightarrow> uploadTask \<Rightarrow> 's World \<Rightarrow> 's World" where
  "runUpload fs t w =
     (case uploadResume fs t w of (t1, w1) \<Rightarrow>
      case uploadResume fs t1 w1 of (t2, w2) \<Rightarrow>
      case uploadResume fs t2 w2 of (t3, w3) \<Rightarrow> w3)"

text \<open>The files uploaded one after another, each upload awaited before the next.\<close>

definition uploadEach :: "'s FileSystem \<Rightarrow> File list \<Rightarrow> 's World \<Rightarrow> 's World" where
  "uploadEach fs files w = foldl (\<lambda>w1 f. snd (uploadImageToWNFS fs f w1)) w files"

text \<open>
  \<^verbatim>\<open>handleFileInput\<close>: the uploads, then the refresh. No upload rejects, so
  \<^verbatim>\<open>Promise.all\<close> resolves, and it does when the last upload has settled.
\<close>

definition handleFileInput :: "'s FileSystem \<Rightarrow> nat list \<Rightarrow> File list \<Rightarrow> ('s, unit) prog" where
  "handleFileInput fs sched files =
     andThen (\<lambda>w. case startUploads files w of (ts, w1) \<Rightarrow>
                   case settleUploads fs sched ts w1 of (ts2, w2) \<Rightarrow> (Inr (), w2))
             (\<lambda>_. getImagesFromWNFS fs)"

subsection \<open>What a call adds to the trace\<close>

definition eventsSince :: "'s World \<Rightarrow> 's World \<Rightarrow> event list" where
  "eventsSince w w2 = drop (length (trace w)) (trace w2)"

text \<open>A refresh begins with the update that sets \<^verbatim>\<open>loading\<close>.\<close>

fun isRefresh :: "event \<Rightarrow> bool" where
  "isRefresh (Update g) = loading g"
| "isRefresh e = False"

subsection \<open>A file system in memory\<close>

text \<open>
  A small store to run the functions on: the files with their segments, a clock for the
  modification times, and the names of the operations that are to reject.
\<close>

record memStore =
  mem_files :: "(string list \<times> FileNode) list"
  mem_rejects :: "string list"
  mem_clock :: int

fun segments :: "path \<Rightarrow> string list" where
  "segments (DirectoryPath segs) = segs"
| "segments (FilePath segs) = segs"

definition mem_ls :: "path \<Rightarrow> memStore \<Rightarrow> thrown + (string \<times> Link) list" where
  "mem_ls p s =
     (if ''ls'' \<in> set (mem_rejects s) then Inl (StoreFailure ''ls'')
      else Inr (map (\<lambda>(segs, node). (last segs, \<lparr>link_size = length (content node)\<rparr>))
                    (filter (\<lambda>(segs, node). butlast segs = segments p) (mem_files s))))"

definition mem_get :: "path \<Rightarrow> memStore \<Rightarrow> thrown + FileNode" where
  "mem_get p s =
     (if ''get'' \<in> set (mem_rejects s) then Inl (StoreFailure ''get'')
      else case map_of (mem_files s) (segments p) of
             None \<Rightarrow> Inl (StoreFailure ''no such file'')
           | Some node \<Rightarrow> Inr node)"

definition mem_exists :: "path \<Rightarrow> memStore \<Rightarrow> thrown + bool" where
  "mem_exists p s =
     (if ''exists'' \<in> set (mem_rejects s) then Inl (StoreFailure ''exists'')
      else Inr (map_of (mem_files s) (segments p) \<noteq> None))"

definition mem_write :: "path \<Rightarrow> File \<Rightarrow> memStore \<Rightarrow> thrown + memStore" where
  "mem_write p img s =
     (if ''write'' \<in> set (mem_rejects s) then Inl (StoreFailure ''write'')
      else Inr (s\<lparr>mem_files :=
                    filter (\<lambda>(segs, node). segs \<noteq> segments p) (mem_files s)
                    @ [(segments p, \<lparr>content = file_content img, unixMeta_mtime = mem_clock s\<rparr>)],
                  mem_clock := mem_clock s + 1\<rparr>))"

definition mem_rm :: "path \<Rightarrow> memStore \<Rightarrow> thrown + memStore" where
  "mem_rm p s =
     (if ''rm'' \<in> set (mem_rejects s) then Inl (StoreFailure ''rm'')
      else if map_of (mem_files s) (segments p) = None then Inl (StoreFailure ''no such file'')
      else Inr (s\<lparr>mem_files := filter (\<lambda>(segs, node). segs \<noteq> segments p) (mem_files s)\<rparr>))"

definition mem_publish :: "memStore \<Rightarrow> thrown + memStore" where
  "mem_publish s =
     (if ''publish'' \<in> set (mem_rejects s) then Inl (StoreFailure ''publish'') else Inr s)"

definition memFS :: "memStore FileSystem" where
  "memFS = \<lparr>fs_ls = mem_ls, fs_get = mem_get, fs_exists = mem_exists,
            fs_write = mem_write, fs_rm = mem_rm, fs_publish = mem_publish\<rparr>"

definition emptyGallery :: "AREAS \<Rightarrow> Gallery" where
  "emptyGallery area =
     \<lparr>publicImages = None, privateImages = None, selectedArea = area, loading = False\<rparr>"

definition memWorld :: "AREAS \<Rightarrow> (string list \<times> FileNode) list \<Rightarrow> string list \<Rightarrow> memStore World" where
  "memWorld area files rejects =
     \<lparr>galleryStore = emptyGallery area,
      filesystemStore = \<lparr>mem_files = files, mem_rejects = rejects, mem_clock = 100\<rparr>,
      trace = [], nextUuid = 0\<rparr>"

text \<open>The files of the scenario of the specification, in the public gallery.\<close>

definition aJpg :: "string list \<times> FileNode" where
  "aJpg = ([''public'', ''gallery'', ''a.jpg''],
           \<lparr>content = replicate 100 0, unixMeta_mtime = 10\<rparr>)"

definition bJpg :: "string list \<times> FileNode" where
  "bJpg = ([''public'', ''gallery'', ''b.jpg''],
           \<lparr>content = replicate 50 0, unixMeta_mtime = 20\<rparr>)"

text \<open>
  Files to upload: three small ones, one of them with a forward slash in its name, one of
  exactly 5 MiB and one of a byte more.
\<close>

definition cFile :: File where
  "cFile = \<lparr>file_name = ''c.jpg'', file_content = [1, 2, 3]\<rparr>"

definition slashFile :: File where
  "slashFile = \<lparr>file_name = ''x/y.jpg'', file_content = [1, 2, 3]\<rparr>"

definition aFile :: File where
  "aFile = \<lparr>file_name = ''a.jpg'', file_content = [1, 2, 3]\<rparr>"

definition fiveMiB :: File where
  "fiveMiB = \<lparr>file_name = ''big.jpg'', file_content = replicate (5 * 1024 * 1024) 0\<rparr>"

definition overFiveMiB :: File where
  "overFiveMiB = \<lparr>file_name = ''big.jpg'', file_content = replicate (5 * 1024 * 1024 + 1) 0\<rparr>"

subsection \<open>Reading the trace\<close>

text \<open>
  The removals, the publications and the beginnings of a refresh among the events, in
  their order.
\<close>

fun isRemove :: "event \<Rightarrow> bool" where
  "isRemove (Rm p) = True"
| "isRemove e = False"

definition milestones :: "event list \<Rightarrow> event list" where
  "milestones es = filter (\<lambda>e. isRemove e \<or> e = Publish \<or> isRefresh e) es"

text \<open>Another task that selects the private area.\<close>

definition switchArea :: "memStore interference" where
  "switchArea = (\<lambda>(g, s). (g\<lparr>selectedArea := PRIVATE\<rparr>, s))"

text \<open>
  The number of uploads begun (an upload begins by logging its file under the label
  \<^verbatim>\<open>image\<close>, which nothing else logs) and the number of refreshes begun.
\<close>

definition imageLogs :: "event list \<Rightarrow> nat" where
  "imageLogs es = length (filter (\<lambda>e. e = ConsoleLog ''image'') es)"

definition refreshes :: "event list \<Rightarrow> nat" where
  "refreshes es = length (filter isRefresh es)"

subsection \<open>Reading the gallery state\<close>

definition slotOf :: "AREAS \<Rightarrow> Gallery \<Rightarrow> Image list option" where
  "slotOf area g = (case area of PRIVATE \<Rightarrow> privateImages g | PUBLIC \<Rightarrow> publicImages g)"

fun otherArea :: "AREAS \<Rightarrow> AREAS" where
  "otherArea PUBLIC = PRIVATE"
| "otherArea PRIVATE = PUBLIC"

section \<open>Properties\<close>

subsection \<open>Termination of the batch of uploads\<close>

lemma uploadResume_awaitsLeft:
  "t \<noteq> Settled \<Longrightarrow> awaitsLeft (fst (uploadResume fs t w)) < awaitsLeft t"
  by (cases t) (auto split: sum.splits)

lemma nextUpload_pending: "pending \<noteq> [] \<Longrightarrow> nextUpload sched pending \<in> set pending"
  by (cases sched) (auto simp: nextUpload_def)

lemma pendingUploads_member:
  "k \<in> set (pendingUploads ts) \<Longrightarrow> k < length ts \<and> ts ! k \<noteq> Settled"
  by (auto simp: pendingUploads_def)

lemma awaitsLeft_update:
  "k < length ts \<Longrightarrow> awaitsLeft t < awaitsLeft (ts ! k) \<Longrightarrow>
   sum_list (map awaitsLeft (ts[k := t])) < sum_list (map awaitsLeft ts)"
proof (induction ts arbitrary: k)
  case Nil
  then show ?case by simp
next
  case (Cons a ts)
  then show ?case by (cases k) auto
qed

termination settleUploads
proof (relation "measure (\<lambda>(fs, sched, ts, w). sum_list (map awaitsLeft ts))")
  show "wf (measure (\<lambda>(fs, sched, ts, w). sum_list (map awaitsLeft ts)))" by simp
next
  fix fs :: "'a FileSystem" and sched ts and w :: "'a World" and x1 x2
  assume p: "pendingUploads ts \<noteq> []"
    and r: "(x1, x2) = uploadResume fs (ts ! nextUpload sched (pendingUploads ts)) w"
  let ?k = "nextUpload sched (pendingUploads ts)"
  have k: "?k < length ts \<and> ts ! ?k \<noteq> Settled"
    using nextUpload_pending [OF p] pendingUploads_member by blast
  have "awaitsLeft x1 < awaitsLeft (ts ! ?k)"
    using uploadResume_awaitsLeft [of "ts ! ?k" fs w] k r [symmetric] by simp
  then show "((fs, tl sched, ts[?k := x1], x2), (fs, sched, ts, w))
      \<in> measure (\<lambda>(fs, sched, ts, w). sum_list (map awaitsLeft ts))"
    using awaitsLeft_update k by simp
qed

declare settleUploads.simps [simp del]

subsection \<open>The listing: what \<^verbatim>\<open>getImagesFromWNFS\<close> does in each case\<close>

lemmas prog_defs = pure_def throw_def evaluate_def andThen_def tryCatch_def emit_def getStore_gallery_def
  updateGallery_def awaitRead_def awaitWrite_def uuid_def

lemma wn_path_directory_gallery:
  "wn_path_directory (GALLERY_DIRS area) = Inr (DirectoryPath (GALLERY_DIRS area))"
  by (cases area) (simp_all add: wn_path_directory_def hasSlash_def)

lemma callAll_fetchCall:
  "callAll (map (fetchCall area) links) w =
     (Inr (), w\<lparr>trace := trace w @ getCalls area links\<rparr>)"
proof (induction links arbitrary: w)
  case Nil
  show ?case by (simp add: pure_def getCalls_def)
next
  case (Cons entry links)
  have "callAll (map (fetchCall area) (entry # links)) w =
        callAll (map (fetchCall area) links) (w\<lparr>trace := trace w @ getCalls area [entry]\<rparr>)"
    by (cases "getPath area (fst entry)")
       (simp_all add: andThen_def fetchCall_def emit_def pure_def getCalls_def)
  also have "\<dots> = (Inr (), w\<lparr>trace := trace w @ getCalls area (entry # links)\<rparr>)"
    unfolding Cons.IH by (simp add: getCalls_def)
  finally show ?case .
qed

lemma fetchRest_cases:
  "fetchRest fs area isPrivate entry w =
     (case getPath area (fst entry) of
        Inl e \<Rightarrow> (Inl e, w)
      | Inr p \<Rightarrow>
          (case fs_get fs p (filesystemStore w) of
             Inl e \<Rightarrow> (Inl e, w)
           | Inr node \<Rightarrow>
               (Inr \<lparr>id_img = nextUuid w, mtime = unixMeta_mtime node, name = fst entry,
                     private_img = isPrivate, size_img = link_size (snd entry),
                     src = imageSrc (content node)\<rparr>,
                w\<lparr>trace := trace w @ [ConsoleLog ''file''], nextUuid := Suc (nextUuid w)\<rparr>)))"
  by (simp add: fetchRest_def prog_defs split: sum.splits)


lemma fetchRest_frame:
  "fetchRest fs area isPrivate entry w = (r, w1) \<Longrightarrow>
   galleryStore w1 = galleryStore w \<and> filesystemStore w1 = filesystemStore w \<and>
   (\<exists>k. trace w1 = trace w @ replicate k (ConsoleLog ''file''))"
proof -
  assume r: "fetchRest fs area isPrivate entry w = (r, w1)"
  then have "w1 = w \<or>
      w1 = w\<lparr>trace := trace w @ [ConsoleLog ''file''], nextUuid := Suc (nextUuid w)\<rparr>"
    by (auto simp: fetchRest_cases split: sum.splits)
  then show ?thesis
  proof
    assume "w1 = w"
    then have "trace w1 = trace w @ replicate 0 (ConsoleLog ''file'')" by simp
    with \<open>w1 = w\<close> show ?thesis by blast
  next
    assume w1: "w1 = w\<lparr>trace := trace w @ [ConsoleLog ''file''], nextUuid := Suc (nextUuid w)\<rparr>"
    then have "trace w1 = trace w @ replicate 1 (ConsoleLog ''file'')" by simp
    with w1 show ?thesis by (metis World.select_convs(1,2) World.surjective World.update_convs(3,4))
  qed
qed

lemma fetchRest_result:
  "fetchRest fs area isPrivate entry w = (Inr im, w1) \<Longrightarrow>
   name im = fst entry \<and> private_img im = isPrivate"
  by (auto simp: fetchRest_cases split: sum.splits)

lemma settleAll_Cons:
  "settleAll (p # ps) w = (rs, w2) \<Longrightarrow>
   \<exists>r w1 rs1. p w = (r, w1) \<and> settleAll ps w1 = (rs1, w2) \<and> rs = r # rs1"
  by (auto split: prod.splits)

lemma settleAll_fetchRest_frame:
  "settleAll (map (fetchRest fs area isPrivate) links) w = (rs, w2) \<Longrightarrow>
   galleryStore w2 = galleryStore w \<and> filesystemStore w2 = filesystemStore w \<and>
   (\<exists>k. trace w2 = trace w @ replicate k (ConsoleLog ''file''))"
proof (induction links arbitrary: w rs)
  case Nil
  then show ?case by simp
next
  case (Cons entry links)
  from Cons.prems obtain r w1 rs1 where
    r: "fetchRest fs area isPrivate entry w = (r, w1)" and
    rs1: "settleAll (map (fetchRest fs area isPrivate) links) w1 = (rs1, w2)"
    using settleAll_Cons [of "fetchRest fs area isPrivate entry"
        "map (fetchRest fs area isPrivate) links" w rs w2]
    by auto
  from fetchRest_frame [OF r] obtain k1 where
    f1: "galleryStore w1 = galleryStore w" "filesystemStore w1 = filesystemStore w"
      "trace w1 = trace w @ replicate k1 (ConsoleLog ''file'')"
    by blast
  from Cons.IH [OF rs1] obtain k2 where
    f2: "galleryStore w2 = galleryStore w1" "filesystemStore w2 = filesystemStore w1"
      "trace w2 = trace w1 @ replicate k2 (ConsoleLog ''file'')"
    by blast
  have "trace w2 = trace w @ replicate (k1 + k2) (ConsoleLog ''file'')"
    using f1 f2 by (simp add: replicate_add)
  then show ?case using f1 f2 by auto
qed

lemma settleAll_fetchRest_result:
  "settleAll (map (fetchRest fs area isPrivate) links) w = (rs, w2) \<Longrightarrow>
   allOrFirstRejection rs = Inr images \<Longrightarrow>
   map name images = map fst links \<and> (\<forall>im \<in> set images. private_img im = isPrivate)"
proof (induction links arbitrary: w rs images)
  case Nil
  then show ?case by auto
next
  case (Cons entry links)
  from Cons.prems(1) obtain r w1 rs1 where
    r: "fetchRest fs area isPrivate entry w = (r, w1)" and
    rs1: "settleAll (map (fetchRest fs area isPrivate) links) w1 = (rs1, w2)" and
    rs: "rs = r # rs1"
    using settleAll_Cons [of "fetchRest fs area isPrivate entry"
        "map (fetchRest fs area isPrivate) links" w rs w2]
    by auto
  from Cons.prems(2) rs obtain im images1 where
    i: "r = Inr im" "allOrFirstRejection rs1 = Inr images1" "images = im # images1"
    by (cases r; cases "allOrFirstRejection rs1") auto
  from fetchRest_result r i(1) have "name im = fst entry \<and> private_img im = isPrivate"
    by blast
  then show ?case using Cons.IH [OF rs1 i(2)] i(3) by simp
qed

lemma promiseAll_fetch:
  assumes "promiseAll (map (fetchCall area) links) (map (fetchRest fs area isPrivate) links) w
             = (r, w2)"
  shows "galleryStore w2 = galleryStore w" and "filesystemStore w2 = filesystemStore w"
    and "\<exists>k. trace w2 = trace w @ getCalls area links
                    @ replicate k (ConsoleLog ''file'')"
    and "r = Inr images \<Longrightarrow>
           map name images = map fst links \<and> (\<forall>im \<in> set images. private_img im = isPrivate)"
proof -
  let ?w1 = "w\<lparr>trace := trace w @ getCalls area links\<rparr>"
  obtain rs where s: "settleAll (map (fetchRest fs area isPrivate) links) ?w1 = (rs, w2)"
    and r: "r = allOrFirstRejection rs"
    using assms unfolding promiseAll_def andThen_def callAll_fetchCall
    by (auto split: prod.splits)
  from settleAll_fetchRest_frame [OF s]
  show "galleryStore w2 = galleryStore w" and "filesystemStore w2 = filesystemStore w"
    and "\<exists>k. trace w2 = trace w @ getCalls area links
                    @ replicate k (ConsoleLog ''file'')"
    by auto
  show "r = Inr images \<Longrightarrow>
           map name images = map fst links \<and> (\<forall>im \<in> set images. private_img im = isPrivate)"
    using settleAll_fetchRest_result [OF s] r by simp
qed


lemma pushImages_loading [simp]:
  "pushImages isPrivate images (g\<lparr>loading := b\<rparr>) = pushImages isPrivate images g"
  by (simp add: pushImages_def)

lemma getImagesFromWNFS_try_ls_rejects:
  assumes "fs_ls fs (DirectoryPath (GALLERY_DIRS (selectedArea (galleryStore w))))
             (filesystemStore w) = Inl e"
  shows "getImagesFromWNFS_try fs w =
     (Inl e, w\<lparr>galleryStore := (galleryStore w)\<lparr>loading := True\<rparr>,
               trace := trace w @ [Update ((galleryStore w)\<lparr>loading := True\<rparr>),
                   Ls (DirectoryPath (GALLERY_DIRS (selectedArea (galleryStore w))))]\<rparr>)"
  using assms
  by (simp add: getImagesFromWNFS_try_def prog_defs Let_def wn_path_directory_gallery)

lemma getImagesFromWNFS_try_ls_resolves:
  assumes "fs_ls fs (DirectoryPath (GALLERY_DIRS (selectedArea (galleryStore w))))
             (filesystemStore w) = Inr links"
  shows "getImagesFromWNFS_try fs w =
     (case promiseAll (map (fetchCall (selectedArea (galleryStore w))) links)
             (map (fetchRest fs (selectedArea (galleryStore w))
                     (selectedArea (galleryStore w) = PRIVATE)) links)
             (w\<lparr>galleryStore := (galleryStore w)\<lparr>loading := True\<rparr>,
                trace := trace w @ [Update ((galleryStore w)\<lparr>loading := True\<rparr>),
                   Ls (DirectoryPath (GALLERY_DIRS (selectedArea (galleryStore w)))),
                   ConsoleLog ''links'']\<rparr>) of
        (Inl e, w2) \<Rightarrow> (Inl e, w2)
      | (Inr images, w2) \<Rightarrow>
          (Inr (), w2\<lparr>galleryStore :=
                        pushImages (selectedArea (galleryStore w) = PRIVATE)
                          (sortBy byMtime images) (galleryStore w2),
                     trace := trace w2 @ [ConsoleLog ''images'',
                        Update (pushImages (selectedArea (galleryStore w) = PRIVATE)
                          (sortBy byMtime images) (galleryStore w2))]\<rparr>))"
  using assms
  by (simp add: getImagesFromWNFS_try_def prog_defs Let_def wn_path_directory_gallery
      split: sum.splits prod.splits)


lemma getImagesFromWNFS_cases:
  fixes fs :: "'s FileSystem" and w :: "'s World"
  defines "g \<equiv> galleryStore w"
    and "path \<equiv> DirectoryPath (GALLERY_DIRS (selectedArea (galleryStore w)))"
  obtains
    (ls_rejects) e where
      "fs_ls fs path (filesystemStore w) = Inl e"
      "fst (getImagesFromWNFS_try fs w) = Inl e"
      "getImagesFromWNFS fs w =
         (Inr (), w\<lparr>galleryStore := g\<lparr>loading := False\<rparr>,
                    trace := trace w @ [Update (g\<lparr>loading := True\<rparr>), Ls path,
                               ConsoleError e, Update (g\<lparr>loading := False\<rparr>)]\<rparr>)"
  | (get_rejects) links e k where
      "fs_ls fs path (filesystemStore w) = Inr links"
      "fst (getImagesFromWNFS_try fs w) = Inl e"
      "fst (getImagesFromWNFS fs w) = Inr ()"
      "galleryStore (snd (getImagesFromWNFS fs w)) = g\<lparr>loading := False\<rparr>"
      "filesystemStore (snd (getImagesFromWNFS fs w)) = filesystemStore w"
      "trace (snd (getImagesFromWNFS fs w)) =
         trace w @ [Update (g\<lparr>loading := True\<rparr>), Ls path, ConsoleLog ''links'']
           @ getCalls (selectedArea g) links
           @ replicate k (ConsoleLog ''file'')
           @ [ConsoleError e, Update (g\<lparr>loading := False\<rparr>)]"
  | (loaded) links images k where
      "fs_ls fs path (filesystemStore w) = Inr links"
      "fst (getImagesFromWNFS_try fs w) = Inr ()"
      "fst (getImagesFromWNFS fs w) = Inr ()"
      "map name images = map fst links"
      "\<forall>im \<in> set images. private_img im = (selectedArea g = PRIVATE)"
      "galleryStore (snd (getImagesFromWNFS fs w)) =
         pushImages (selectedArea g = PRIVATE) (sortBy byMtime images) g"
      "filesystemStore (snd (getImagesFromWNFS fs w)) = filesystemStore w"
      "trace (snd (getImagesFromWNFS fs w)) =
         trace w @ [Update (g\<lparr>loading := True\<rparr>), Ls path, ConsoleLog ''links'']
           @ getCalls (selectedArea g) links
           @ replicate k (ConsoleLog ''file'')
           @ [ConsoleLog ''images'',
              Update (pushImages (selectedArea g = PRIVATE) (sortBy byMtime images) g)]"
proof (cases "fs_ls fs path (filesystemStore w)")
  case (Inl e)
  have t: "getImagesFromWNFS_try fs w =
     (Inl e, w\<lparr>galleryStore := g\<lparr>loading := True\<rparr>,
               trace := trace w @ [Update (g\<lparr>loading := True\<rparr>), Ls path]\<rparr>)"
    using getImagesFromWNFS_try_ls_rejects [of fs w e] Inl unfolding g_def path_def by simp
  show thesis
  proof (rule ls_rejects [of e])
    show "fs_ls fs path (filesystemStore w) = Inl e" by (rule Inl)
    show "fst (getImagesFromWNFS_try fs w) = Inl e" by (simp add: t)
    show "getImagesFromWNFS fs w =
         (Inr (), w\<lparr>galleryStore := g\<lparr>loading := False\<rparr>,
                    trace := trace w @ [Update (g\<lparr>loading := True\<rparr>), Ls path,
                               ConsoleError e, Update (g\<lparr>loading := False\<rparr>)]\<rparr>)"
      by (simp add: getImagesFromWNFS_def tryCatch_def t andThen_def emit_def updateGallery_def Let_def)
  qed
next
  case (Inr links)
  let ?w0 = "w\<lparr>galleryStore := g\<lparr>loading := True\<rparr>,
                trace := trace w @ [Update (g\<lparr>loading := True\<rparr>), Ls path,
                   ConsoleLog ''links'']\<rparr>"
  let ?P = "promiseAll (map (fetchCall (selectedArea g)) links)
             (map (fetchRest fs (selectedArea g) (selectedArea g = PRIVATE)) links) ?w0"
  obtain r w2 where p: "?P = (r, w2)" by (cases ?P)
  have t: "getImagesFromWNFS_try fs w =
     (case ?P of
        (Inl e, w2) \<Rightarrow> (Inl e, w2)
      | (Inr images, w2) \<Rightarrow>
          (Inr (), w2\<lparr>galleryStore :=
                        pushImages (selectedArea g = PRIVATE) (sortBy byMtime images) (galleryStore w2),
                     trace := trace w2 @ [ConsoleLog ''images'',
                        Update (pushImages (selectedArea g = PRIVATE)
                          (sortBy byMtime images) (galleryStore w2))]\<rparr>))"
    using getImagesFromWNFS_try_ls_resolves [of fs w links] Inr unfolding g_def path_def by simp
  note f = promiseAll_fetch [OF p]
  from f(3) obtain k where k: "trace w2 = trace ?w0
        @ getCalls (selectedArea g) links
        @ replicate k (ConsoleLog ''file'')" by blast
  have gw2: "galleryStore w2 = g\<lparr>loading := True\<rparr>" using f(1) by simp
  have sw2: "filesystemStore w2 = filesystemStore w" using f(2) by simp
  show thesis
  proof (cases r)
    case (Inl e)
    have t2: "getImagesFromWNFS_try fs w = (Inl e, w2)" using t p Inl by simp
    have l: "getImagesFromWNFS fs w =
        (Inr (), w2\<lparr>galleryStore := (galleryStore w2)\<lparr>loading := False\<rparr>,
                   trace := trace w2 @ [ConsoleError e,
                      Update ((galleryStore w2)\<lparr>loading := False\<rparr>)]\<rparr>)"
      by (simp add: getImagesFromWNFS_def tryCatch_def t2 andThen_def emit_def updateGallery_def Let_def)
    show thesis
    proof (rule get_rejects [of links e k])
      show "fs_ls fs path (filesystemStore w) = Inr links" by (rule Inr)
      show "fst (getImagesFromWNFS_try fs w) = Inl e" by (simp add: t2)
      show "fst (getImagesFromWNFS fs w) = Inr ()" by (simp add: l)
      show "galleryStore (snd (getImagesFromWNFS fs w)) = g\<lparr>loading := False\<rparr>"
        by (simp add: l gw2)
      show "filesystemStore (snd (getImagesFromWNFS fs w)) = filesystemStore w"
        by (simp add: l sw2)
      show "trace (snd (getImagesFromWNFS fs w)) =
         trace w @ [Update (g\<lparr>loading := True\<rparr>), Ls path, ConsoleLog ''links'']
           @ getCalls (selectedArea g) links
           @ replicate k (ConsoleLog ''file'')
           @ [ConsoleError e, Update (g\<lparr>loading := False\<rparr>)]"
        by (simp add: l gw2 k)
    qed
  next
    case (Inr images)
    have t2: "getImagesFromWNFS_try fs w =
          (Inr (), w2\<lparr>galleryStore :=
                        pushImages (selectedArea g = PRIVATE) (sortBy byMtime images) (galleryStore w2),
                     trace := trace w2 @ [ConsoleLog ''images'',
                        Update (pushImages (selectedArea g = PRIVATE)
                          (sortBy byMtime images) (galleryStore w2))]\<rparr>)"
      using t p Inr by simp
    have l: "getImagesFromWNFS fs w = getImagesFromWNFS_try fs w"
      by (simp add: getImagesFromWNFS_def tryCatch_def t2)
    show thesis
    proof (rule loaded [of links images k])
      show "fs_ls fs path (filesystemStore w) = Inr links" by fact
      show "fst (getImagesFromWNFS_try fs w) = Inr ()" by (simp add: t2)
      show "fst (getImagesFromWNFS fs w) = Inr ()" by (simp add: l t2)
      show "map name images = map fst links" using f(4) [OF Inr] by simp
      show "\<forall>im \<in> set images. private_img im = (selectedArea g = PRIVATE)"
        using f(4) [OF Inr] by simp
      show "galleryStore (snd (getImagesFromWNFS fs w)) =
         pushImages (selectedArea g = PRIVATE) (sortBy byMtime images) g"
        by (simp add: l t2 gw2)
      show "filesystemStore (snd (getImagesFromWNFS fs w)) = filesystemStore w"
        by (simp add: l t2 sw2)
      show "trace (snd (getImagesFromWNFS fs w)) =
         trace w @ [Update (g\<lparr>loading := True\<rparr>), Ls path, ConsoleLog ''links'']
           @ getCalls (selectedArea g) links
           @ replicate k (ConsoleLog ''file'')
           @ [ConsoleLog ''images'',
              Update (pushImages (selectedArea g = PRIVATE) (sortBy byMtime images) g)]"
        by (simp add: l t2 gw2 k)
    qed
  qed
qed

subsection \<open>The upload and the deletion: what they do in each case\<close>

lemma uploadImageToWNFS_catch:
  "uploadImageToWNFS fs img w =
     (Inr (), case uploadImageToWNFS_try fs img w of
                (Inl e, w1) \<Rightarrow> w1\<lparr>trace := trace w1 @ [ConsoleLogThrown e]\<rparr>
              | (Inr u, w1) \<Rightarrow> w1)"
  by (simp add: uploadImageToWNFS_def tryCatch_def emit_def split: prod.splits sum.splits)

lemma deleteImageFromWNFS_catch:
  "deleteImageFromWNFS fs fileName w =
     (Inr (), case deleteImageFromWNFS_try fs fileName w of
                (Inl e, w1) \<Rightarrow> w1\<lparr>trace := trace w1 @ [ConsoleError e]\<rparr>
              | (Inr u, w1) \<Rightarrow> w1)"
  by (simp add: deleteImageFromWNFS_def tryCatch_def emit_def split: prod.splits sum.splits)

lemma getImagesFromWNFS_resolves: "fst (getImagesFromWNFS fs w) = Inr ()"
  by (cases rule: getImagesFromWNFS_cases [of fs w]) simp_all

lemma uploadImageToWNFS_cases:
  fixes fs :: "'s FileSystem" and w :: "'s World" and img :: File
  obtains
    (too_large)
      "5 < real (file_size img) / (1024 * 1024)"
      "fst (uploadImageToWNFS_try fs img w) = Inl sizeError"
      "uploadImageToWNFS fs img w =
         (Inr (), w\<lparr>trace := trace w @ [ConsoleLog ''image'', ConsoleLogThrown sizeError]\<rparr>)"
  | (bad_path) e where
      "\<not> 5 < real (file_size img) / (1024 * 1024)"
      "getPath (selectedArea (galleryStore w)) (file_name img) = Inl e"
      "fst (uploadImageToWNFS_try fs img w) = Inl e"
      "uploadImageToWNFS fs img w =
         (Inr (), w\<lparr>trace := trace w @ [ConsoleLog ''image'', ConsoleLogThrown e]\<rparr>)"
  | (exists_rejects) p e where
      "\<not> 5 < real (file_size img) / (1024 * 1024)"
      "getPath (selectedArea (galleryStore w)) (file_name img) = Inr p"
      "fs_exists fs p (filesystemStore w) = Inl e"
      "fst (uploadImageToWNFS_try fs img w) = Inl e"
      "uploadImageToWNFS fs img w =
         (Inr (), w\<lparr>trace := trace w @ [ConsoleLog ''image'', Exists p, ConsoleLogThrown e]\<rparr>)"
  | (duplicate) p where
      "\<not> 5 < real (file_size img) / (1024 * 1024)"
      "getPath (selectedArea (galleryStore w)) (file_name img) = Inr p"
      "fs_exists fs p (filesystemStore w) = Inr True"
      "fst (uploadImageToWNFS_try fs img w) = Inl (existsError (file_name img))"
      "uploadImageToWNFS fs img w =
         (Inr (), w\<lparr>trace := trace w @ [ConsoleLog ''image'', Exists p,
                      ConsoleLogThrown (existsError (file_name img))]\<rparr>)"
  | (write_rejects) p e where
      "\<not> 5 < real (file_size img) / (1024 * 1024)"
      "getPath (selectedArea (galleryStore w)) (file_name img) = Inr p"
      "fs_exists fs p (filesystemStore w) = Inr False"
      "fs_write fs p img (filesystemStore w) = Inl e"
      "fst (uploadImageToWNFS_try fs img w) = Inl e"
      "uploadImageToWNFS fs img w =
         (Inr (), w\<lparr>trace := trace w @ [ConsoleLog ''image'', Exists p, Write p img,
                      ConsoleLogThrown e]\<rparr>)"
  | (publish_rejects) p s1 e where
      "\<not> 5 < real (file_size img) / (1024 * 1024)"
      "getPath (selectedArea (galleryStore w)) (file_name img) = Inr p"
      "fs_exists fs p (filesystemStore w) = Inr False"
      "fs_write fs p img (filesystemStore w) = Inr s1"
      "fs_publish fs s1 = Inl e"
      "fst (uploadImageToWNFS_try fs img w) = Inl e"
      "uploadImageToWNFS fs img w =
         (Inr (), w\<lparr>filesystemStore := s1,
                    trace := trace w @ [ConsoleLog ''image'', Exists p, Write p img, Publish,
                      ConsoleLogThrown e]\<rparr>)"
  | (published) p s1 s2 where
      "\<not> 5 < real (file_size img) / (1024 * 1024)"
      "getPath (selectedArea (galleryStore w)) (file_name img) = Inr p"
      "fs_exists fs p (filesystemStore w) = Inr False"
      "fs_write fs p img (filesystemStore w) = Inr s1"
      "fs_publish fs s1 = Inr s2"
      "fst (uploadImageToWNFS_try fs img w) = Inr ()"
      "uploadImageToWNFS fs img w =
         (Inr (), w\<lparr>filesystemStore := s2,
                    trace := trace w @ [ConsoleLog ''image'', Exists p, Write p img, Publish,
                      ConsoleLog (file_name img @ '' image has been published'')]\<rparr>)"
proof (cases "5 < real (file_size img) / (1024 * 1024)")
  note defs = uploadImageToWNFS_catch uploadImageToWNFS_try_def prog_defs FILE_SIZE_LIMIT_def
    Let_def
  case True
  show thesis
    using True by (intro too_large [OF True]) (simp_all add: defs)
next
  note defs = uploadImageToWNFS_catch uploadImageToWNFS_try_def prog_defs FILE_SIZE_LIMIT_def
    Let_def
  case False
  show thesis
  proof (cases "getPath (selectedArea (galleryStore w)) (file_name img)")
    case (Inl e)
    show thesis
      using False Inl by (intro bad_path [OF False Inl]) (simp_all add: defs)
  next
    case pa: (Inr p)
    show thesis
    proof (cases "fs_exists fs p (filesystemStore w)")
      case (Inl e)
      show thesis
        using False pa Inl by (intro exists_rejects [OF False pa Inl]) (simp_all add: defs)
    next
      case ex: (Inr imageExists)
      show thesis
      proof (cases imageExists)
        case True
        have ex1: "fs_exists fs p (filesystemStore w) = Inr True" using ex True by simp
        show thesis
          using False pa ex1 by (intro duplicate [OF False pa ex1]) (simp_all add: defs)
      next
        case nex: False
        have ex0: "fs_exists fs p (filesystemStore w) = Inr False" using ex nex by simp
        show thesis
        proof (cases "fs_write fs p img (filesystemStore w)")
          case (Inl e)
          show thesis
            using False pa ex0 Inl
            by (intro write_rejects [OF False pa ex0 Inl]) (simp_all add: defs)
        next
          case wr: (Inr s1)
          show thesis
          proof (cases "fs_publish fs s1")
            case (Inl e)
            show thesis
              using False pa ex0 wr Inl
              by (intro publish_rejects [OF False pa ex0 wr Inl]) (simp_all add: defs)
          next
            case (Inr s2)
            show thesis
              using False pa ex0 wr Inr
              by (intro published [OF False pa ex0 wr Inr]) (simp_all add: defs)
          qed
        qed
      qed
    qed
  qed
qed

lemma deleteImageFromWNFS_cases:
  fixes fs :: "'s FileSystem" and w :: "'s World" and fileName :: string
  obtains
    (bad_path) e where
      "getPath (selectedArea (galleryStore w)) fileName = Inl e"
      "fst (deleteImageFromWNFS_try fs fileName w) = Inl e"
      "deleteImageFromWNFS fs fileName w =
         (Inr (), w\<lparr>trace := trace w @ [ConsoleError e]\<rparr>)"
  | (exists_rejects) p e where
      "getPath (selectedArea (galleryStore w)) fileName = Inr p"
      "fs_exists fs p (filesystemStore w) = Inl e"
      "fst (deleteImageFromWNFS_try fs fileName w) = Inl e"
      "deleteImageFromWNFS fs fileName w =
         (Inr (), w\<lparr>trace := trace w @ [Exists p, ConsoleError e]\<rparr>)"
  | (not_found) p where
      "getPath (selectedArea (galleryStore w)) fileName = Inr p"
      "fs_exists fs p (filesystemStore w) = Inr False"
      "fst (deleteImageFromWNFS_try fs fileName w) = Inl (deletedError fileName)"
      "deleteImageFromWNFS fs fileName w =
         (Inr (), w\<lparr>trace := trace w @ [Exists p, ConsoleError (deletedError fileName)]\<rparr>)"
  | (rm_rejects) p e where
      "getPath (selectedArea (galleryStore w)) fileName = Inr p"
      "fs_exists fs p (filesystemStore w) = Inr True"
      "fs_rm fs p (filesystemStore w) = Inl e"
      "fst (deleteImageFromWNFS_try fs fileName w) = Inl e"
      "deleteImageFromWNFS fs fileName w =
         (Inr (), w\<lparr>trace := trace w @ [Exists p, Rm p, ConsoleError e]\<rparr>)"
  | (publish_rejects) p s1 e where
      "getPath (selectedArea (galleryStore w)) fileName = Inr p"
      "fs_exists fs p (filesystemStore w) = Inr True"
      "fs_rm fs p (filesystemStore w) = Inr s1"
      "fs_publish fs s1 = Inl e"
      "fst (deleteImageFromWNFS_try fs fileName w) = Inl e"
      "deleteImageFromWNFS fs fileName w =
         (Inr (), w\<lparr>filesystemStore := s1,
                    trace := trace w @ [Exists p, Rm p, Publish, ConsoleError e]\<rparr>)"
  | (deleted) p s1 s2 where
      "getPath (selectedArea (galleryStore w)) fileName = Inr p"
      "fs_exists fs p (filesystemStore w) = Inr True"
      "fs_rm fs p (filesystemStore w) = Inr s1"
      "fs_publish fs s1 = Inr s2"
      "fst (deleteImageFromWNFS_try fs fileName w) = Inr ()"
      "deleteImageFromWNFS fs fileName w =
         getImagesFromWNFS fs
           (w\<lparr>filesystemStore := s2,
              trace := trace w @ [Exists p, Rm p, Publish,
                ConsoleLog (fileName @ '' image has been deleted'')]\<rparr>)"
proof (cases "getPath (selectedArea (galleryStore w)) fileName")
  note defs = deleteImageFromWNFS_catch deleteImageFromWNFS_try_def prog_defs Let_def
  case (Inl e)
  show thesis
    using Inl by (intro bad_path [OF Inl]) (simp_all add: defs)
next
  note defs = deleteImageFromWNFS_catch deleteImageFromWNFS_try_def prog_defs Let_def
  case pa: (Inr p)
  show thesis
  proof (cases "fs_exists fs p (filesystemStore w)")
    case (Inl e)
    show thesis
      using pa Inl by (intro exists_rejects [OF pa Inl]) (simp_all add: defs)
  next
    case ex: (Inr imageExists)
    show thesis
    proof (cases imageExists)
      case False
      have ex0: "fs_exists fs p (filesystemStore w) = Inr False" using ex False by simp
      show thesis
        using pa ex0 by (intro not_found [OF pa ex0]) (simp_all add: defs)
    next
      case True
      have ex1: "fs_exists fs p (filesystemStore w) = Inr True" using ex True by simp
      show thesis
      proof (cases "fs_rm fs p (filesystemStore w)")
        case (Inl e)
        show thesis
          using pa ex1 Inl by (intro rm_rejects [OF pa ex1 Inl]) (simp_all add: defs)
      next
        case rm: (Inr s1)
        show thesis
        proof (cases "fs_publish fs s1")
          case (Inl e)
          show thesis
            using pa ex1 rm Inl
            by (intro publish_rejects [OF pa ex1 rm Inl]) (simp_all add: defs)
        next
          case (Inr s2)
          let ?w3 = "w\<lparr>filesystemStore := s2,
                trace := trace w @ [Exists p, Rm p, Publish,
                  ConsoleLog (fileName @ '' image has been deleted'')]\<rparr>"
          have t3: "deleteImageFromWNFS_try fs fileName w = getImagesFromWNFS fs ?w3"
            using pa ex1 rm Inr by (simp add: deleteImageFromWNFS_try_def prog_defs Let_def)
          have r: "fst (getImagesFromWNFS fs ?w3) = Inr ()" by (rule getImagesFromWNFS_resolves)
          show thesis
          proof (rule deleted [OF pa ex1 rm Inr])
            show "fst (deleteImageFromWNFS_try fs fileName w) = Inr ()" using t3 r by simp
            show "deleteImageFromWNFS fs fileName w = getImagesFromWNFS fs ?w3"
              unfolding deleteImageFromWNFS_catch t3 using r
              by (cases "getImagesFromWNFS fs ?w3") simp
          qed
        qed
      qed
    qed
  qed
qed

subsection \<open>Auxiliary facts\<close>

lemmas mem_defs = memFS_def mem_ls_def mem_get_def mem_exists_def mem_write_def mem_rm_def
  mem_publish_def memWorld_def emptyGallery_def

lemmas run_defs = prog_defs promiseAll_def fetchCall_def fetchRest_def getPath_def
  wn_path_file_def wn_path_directory_def hasSlash_def sortBy_def byMtime_def pushImages_def Let_def

subsection \<open>The sort\<close>









text \<open>
  The scenario of the specification: \<^verbatim>\<open>a.jpg\<close> of 100 bytes and time 10, \<^verbatim>\<open>b.jpg\<close> of 50
  bytes and time 20; the call succeeds and the public list is \<^verbatim>\<open>b.jpg\<close>, \<^verbatim>\<open>a.jpg\<close>.
\<close>

lemma scenario_loads:
  "fst (getImagesFromWNFS_try memFS (memWorld PUBLIC [aJpg, bJpg] [])) = Inr ()"
  by (simp add: getImagesFromWNFS_try_def run_defs mem_defs aJpg_def bJpg_def)

lemma scenario_order:
  "map_option (map name) (publicImages (galleryStore (snd
      (getImagesFromWNFS memFS (memWorld PUBLIC [aJpg, bJpg] []))))) = Some [''b.jpg'', ''a.jpg'']"
  by (simp add: getImagesFromWNFS_def getImagesFromWNFS_try_def run_defs mem_defs
      aJpg_def bJpg_def)


subsection \<open>The gallery state after a listing\<close>

lemma slotOf_loading [simp]: "slotOf area (g\<lparr>loading := b\<rparr>) = slotOf area g"
  by (cases area) (simp_all add: slotOf_def)

text \<open>
  C2. A call of \<^verbatim>\<open>getImagesFromWNFS\<close> leaves the selected area and the list of the other
  area as they were. When the \<^verbatim>\<open>try\<close> block succeeds, the gallery state is the one
  before the call with the list of the selected area replaced (\<^verbatim>\<open>privateImages\<close> when the
  area is private, \<^verbatim>\<open>publicImages\<close> otherwise) and \<^verbatim>\<open>loading\<close> false. When the block
  throws, the gallery state is the one before the call with \<^verbatim>\<open>loading\<close> false.
\<close>

theorem load_frame:
  "selectedArea (galleryStore (snd (getImagesFromWNFS fs w))) = selectedArea (galleryStore w) \<and>
   slotOf (otherArea (selectedArea (galleryStore w))) (galleryStore (snd (getImagesFromWNFS fs w)))
     = slotOf (otherArea (selectedArea (galleryStore w))) (galleryStore w) \<and>
   (fst (getImagesFromWNFS_try fs w) = Inr () \<longrightarrow>
      (\<exists>images. galleryStore (snd (getImagesFromWNFS fs w)) =
         (if selectedArea (galleryStore w) = PRIVATE
          then (galleryStore w)\<lparr>privateImages := Some images, loading := False\<rparr>
          else (galleryStore w)\<lparr>publicImages := Some images, loading := False\<rparr>))) \<and>
   (\<forall>e. fst (getImagesFromWNFS_try fs w) = Inl e \<longrightarrow>
      galleryStore (snd (getImagesFromWNFS fs w)) = (galleryStore w)\<lparr>loading := False\<rparr>)"
proof (cases rule: getImagesFromWNFS_cases [of fs w])
  case (ls_rejects e)
  then show ?thesis by simp
next
  case (get_rejects links e k)
  then show ?thesis by simp
next
  case (loaded links images k)
  show ?thesis
    unfolding loaded(2,6)
    by (cases "selectedArea (galleryStore w)") (auto simp: pushImages_def slotOf_def)
qed

lemma listing_rejected:
  "fst (getImagesFromWNFS_try memFS (memWorld PRIVATE [aJpg] [''ls''])) = Inl (StoreFailure ''ls'')"
  by (simp add: getImagesFromWNFS_try_def run_defs mem_defs)

theorem load_frame_witness:
  "fst (getImagesFromWNFS_try memFS (memWorld PUBLIC [aJpg, bJpg] [])) = Inr () \<and>
   (\<exists>images. galleryStore (snd (getImagesFromWNFS memFS (memWorld PUBLIC [aJpg, bJpg] []))) =
      (emptyGallery PUBLIC)\<lparr>publicImages := Some images, loading := False\<rparr>) \<and>
   fst (getImagesFromWNFS_try memFS (memWorld PRIVATE [aJpg] [''ls''])) = Inl (StoreFailure ''ls'') \<and>
   galleryStore (snd (getImagesFromWNFS memFS (memWorld PRIVATE [aJpg] [''ls''])))
     = (emptyGallery PRIVATE)\<lparr>loading := False\<rparr>"
proof -
  have a: "galleryStore (memWorld PUBLIC [aJpg, bJpg] []) = emptyGallery PUBLIC"
    and b: "galleryStore (memWorld PRIVATE [aJpg] [''ls'']) = emptyGallery PRIVATE"
    and c: "selectedArea (emptyGallery PUBLIC) \<noteq> PRIVATE"
    by (simp_all add: memWorld_def emptyGallery_def)
  from load_frame [of memFS "memWorld PUBLIC [aJpg, bJpg] []"] scenario_loads
  have "\<exists>images. galleryStore (snd (getImagesFromWNFS memFS (memWorld PUBLIC [aJpg, bJpg] []))) =
      (emptyGallery PUBLIC)\<lparr>publicImages := Some images, loading := False\<rparr>"
    unfolding a using c by simp
  moreover from load_frame [of memFS "memWorld PRIVATE [aJpg] [''ls'']"] listing_rejected
  have "galleryStore (snd (getImagesFromWNFS memFS (memWorld PRIVATE [aJpg] [''ls''])))
     = (emptyGallery PRIVATE)\<lparr>loading := False\<rparr>"
    unfolding b by simp
  ultimately show ?thesis using scenario_loads listing_rejected by simp
qed

text \<open>
  C7. A call of \<^verbatim>\<open>getImagesFromWNFS\<close> resolves. The first thing it does, before any call
  of the file system, is the update of \<^verbatim>\<open>galleryStore\<close> that sets \<^verbatim>\<open>loading\<close> to true,
  and when it has resolved \<^verbatim>\<open>loading\<close> is false, whether the \<^verbatim>\<open>try\<close> block succeeded or
  threw.
\<close>

theorem loading_flag:
  "fst (getImagesFromWNFS fs w) = Inr () \<and>
   (\<exists>es. eventsSince w (snd (getImagesFromWNFS fs w))
           = Update ((galleryStore w)\<lparr>loading := True\<rparr>) # es) \<and>
   loading (galleryStore (snd (getImagesFromWNFS fs w))) = False"
proof (cases rule: getImagesFromWNFS_cases [of fs w])
  case (ls_rejects e)
  then show ?thesis by (simp add: eventsSince_def)
next
  case (get_rejects links e k)
  then show ?thesis by (simp add: eventsSince_def)
next
  case (loaded links images k)
  then show ?thesis by (simp add: eventsSince_def pushImages_def)
qed

subsection \<open>Failures\<close>

text \<open>
  C1, as amended. None of \<^verbatim>\<open>getImagesFromWNFS\<close>, \<^verbatim>\<open>uploadImageToWNFS\<close> and
  \<^verbatim>\<open>deleteImageFromWNFS\<close> ever rejects: each call resolves, with no value. Whatever the
  \<^verbatim>\<open>try\<close> block of a call throws is caught and written to the console by that call. The
  caller is given the same result as by a call that has succeeded.
\<close>

theorem failures_caught_and_logged:
  "fst (getImagesFromWNFS fs w) = Inr () \<and>
   fst (uploadImageToWNFS fs img w) = Inr () \<and>
   fst (deleteImageFromWNFS fs fileName w) = Inr () \<and>
   (\<forall>e. fst (getImagesFromWNFS_try fs w) = Inl e \<longrightarrow>
      ConsoleError e \<in> set (eventsSince w (snd (getImagesFromWNFS fs w)))) \<and>
   (\<forall>e. fst (uploadImageToWNFS_try fs img w) = Inl e \<longrightarrow>
      ConsoleLogThrown e \<in> set (eventsSince w (snd (uploadImageToWNFS fs img w)))) \<and>
   (\<forall>e. fst (deleteImageFromWNFS_try fs fileName w) = Inl e \<longrightarrow>
      ConsoleError e \<in> set (eventsSince w (snd (deleteImageFromWNFS fs fileName w))))"
proof -
  have l: "fst (getImagesFromWNFS fs w) = Inr () \<and>
    (\<forall>e. fst (getImagesFromWNFS_try fs w) = Inl e \<longrightarrow>
      ConsoleError e \<in> set (eventsSince w (snd (getImagesFromWNFS fs w))))"
    by (cases rule: getImagesFromWNFS_cases [of fs w]) (simp_all add: eventsSince_def)
  have u: "fst (uploadImageToWNFS fs img w) = Inr () \<and>
    (\<forall>e. fst (uploadImageToWNFS_try fs img w) = Inl e \<longrightarrow>
      ConsoleLogThrown e \<in> set (eventsSince w (snd (uploadImageToWNFS fs img w))))"
    by (cases rule: uploadImageToWNFS_cases [where fs = fs and w = w and img = img]) (simp_all add: eventsSince_def)
  have d: "fst (deleteImageFromWNFS fs fileName w) = Inr () \<and>
    (\<forall>e. fst (deleteImageFromWNFS_try fs fileName w) = Inl e \<longrightarrow>
      ConsoleError e \<in> set (eventsSince w (snd (deleteImageFromWNFS fs fileName w))))"
    by (cases rule: deleteImageFromWNFS_cases [where fs = fs and w = w and fileName = fileName])
       (simp_all add: eventsSince_def getImagesFromWNFS_resolves)
  show ?thesis using l u d by simp
qed


lemmas upload_defs = uploadImageToWNFS_def uploadImageToWNFS_try_def FILE_SIZE_LIMIT_def
  file_size_def sizeError_def existsError_def

lemmas delete_defs = deleteImageFromWNFS_def deleteImageFromWNFS_try_def deletedError_def

lemma broken_listing: "fst (getImagesFromWNFS_try memFS (memWorld PRIVATE [] [''ls'', ''write''])) = Inl (StoreFailure ''ls'')"
  by (simp add: getImagesFromWNFS_try_def run_defs mem_defs)

lemma broken_upload: "fst (uploadImageToWNFS_try memFS cFile (memWorld PRIVATE [] [''ls'', ''write''])) = Inl (StoreFailure ''write'')"
  by (simp add: upload_defs run_defs mem_defs cFile_def)

lemma broken_deletion: "fst (deleteImageFromWNFS_try memFS ''a.jpg'' (memWorld PRIVATE [] [''ls'', ''write''])) = Inl (deletedError ''a.jpg'')"
  by (simp add: delete_defs run_defs mem_defs)

lemma duplicate_upload_throws: "fst (uploadImageToWNFS_try memFS aFile (memWorld PUBLIC [aJpg] [])) = Inl (existsError ''a.jpg'')"
  by (simp add: upload_defs run_defs mem_defs aFile_def aJpg_def)

lemma new_upload_succeeds: "fst (uploadImageToWNFS_try memFS cFile (memWorld PUBLIC [aJpg] [])) = Inr ()"
  by (simp add: upload_defs run_defs mem_defs cFile_def aJpg_def)


text \<open>
  A store that rejects \<^verbatim>\<open>ls\<close> and \<^verbatim>\<open>write\<close> and holds no file: the three calls fail,
  and each failure is on the console.
\<close>

theorem failures_caught_and_logged_witness:
  "fst (getImagesFromWNFS_try memFS (memWorld PRIVATE [] [''ls'', ''write''])) = Inl (StoreFailure ''ls'') \<and>
   ConsoleError (StoreFailure ''ls'') \<in> set (eventsSince (memWorld PRIVATE [] [''ls'', ''write''])
      (snd (getImagesFromWNFS memFS (memWorld PRIVATE [] [''ls'', ''write''])))) \<and>
   fst (uploadImageToWNFS_try memFS cFile (memWorld PRIVATE [] [''ls'', ''write''])) = Inl (StoreFailure ''write'') \<and>
   ConsoleLogThrown (StoreFailure ''write'') \<in> set (eventsSince (memWorld PRIVATE [] [''ls'', ''write''])
      (snd (uploadImageToWNFS memFS cFile (memWorld PRIVATE [] [''ls'', ''write''])))) \<and>
   fst (deleteImageFromWNFS_try memFS ''a.jpg'' (memWorld PRIVATE [] [''ls'', ''write''])) = Inl (deletedError ''a.jpg'') \<and>
   ConsoleError (deletedError ''a.jpg'') \<in> set (eventsSince (memWorld PRIVATE [] [''ls'', ''write''])
      (snd (deleteImageFromWNFS memFS ''a.jpg'' (memWorld PRIVATE [] [''ls'', ''write'']))))"
  using failures_caught_and_logged [of memFS "memWorld PRIVATE [] [''ls'', ''write'']" cFile "''a.jpg''"]
    broken_listing broken_upload broken_deletion
  by simp

text \<open>
  C1 as stated fails: of two uploads to a gallery that holds \<^verbatim>\<open>a.jpg\<close>, the upload of
  another \<^verbatim>\<open>a.jpg\<close> fails and the upload of \<^verbatim>\<open>c.jpg\<close> succeeds, and the caller is given
  the same outcome by both.
\<close>

theorem failure_not_surfaced_counterexample:
  "fst (uploadImageToWNFS_try memFS aFile (memWorld PUBLIC [aJpg] [])) = Inl (existsError ''a.jpg'') \<and>
   fst (uploadImageToWNFS_try memFS cFile (memWorld PUBLIC [aJpg] [])) = Inr () \<and>
   fst (uploadImageToWNFS memFS aFile (memWorld PUBLIC [aJpg] []))
     = fst (uploadImageToWNFS memFS cFile (memWorld PUBLIC [aJpg] []))"
  using duplicate_upload_throws new_upload_succeeds by (simp add: uploadImageToWNFS_catch)

subsection \<open>The path of a file\<close>

lemma getPath_cases:
  "getPath area fileName =
     (if CHR ''/'' \<in> set fileName then Inl pathError else Inr (galleryFile area fileName))"
  by (cases area) (simp_all add: getPath_def wn_path_file_def hasSlash_def galleryFile_def)

lemma getPath_slash: "CHR ''/'' \<in> set fileName \<Longrightarrow> getPath area fileName = Inl pathError"
  by (simp add: getPath_cases)

lemma getPath_plain:
  "CHR ''/'' \<notin> set fileName \<Longrightarrow> getPath area fileName = Inr (galleryFile area fileName)"
  by (simp add: getPath_cases)

subsection \<open>The upload\<close>

text \<open>
  C4. An upload of a file of more than 5 MiB throws the size error, which is logged; it
  makes no call of the file system and leaves the store as it was. An upload of a file of
  at most 5 MiB, so also of exactly 5 MiB, passes the check: it goes on to build the path
  and, when the name of the file has no forward slash, to the call of \<^verbatim>\<open>fs.exists\<close>;
  when the name has one, what it throws and logs is the error of the path.
\<close>

theorem size_limit:
  "(5 < real (file_size img) / (1024 * 1024) \<longrightarrow>
      fst (uploadImageToWNFS_try fs img w) = Inl sizeError \<and>
      eventsSince w (snd (uploadImageToWNFS fs img w))
        = [ConsoleLog ''image'', ConsoleLogThrown sizeError] \<and>
      storeCalls (eventsSince w (snd (uploadImageToWNFS fs img w))) = [] \<and>
      filesystemStore (snd (uploadImageToWNFS fs img w)) = filesystemStore w) \<and>
   (real (file_size img) / (1024 * 1024) \<le> 5 \<longrightarrow>
      (CHR ''/'' \<notin> set (file_name img) \<longrightarrow>
         (\<exists>es. eventsSince w (snd (uploadImageToWNFS fs img w))
            = ConsoleLog ''image''
              # Exists (galleryFile (selectedArea (galleryStore w)) (file_name img)) # es)) \<and>
      (CHR ''/'' \<in> set (file_name img) \<longrightarrow>
         fst (uploadImageToWNFS_try fs img w) = Inl pathError \<and>
         eventsSince w (snd (uploadImageToWNFS fs img w))
           = [ConsoleLog ''image'', ConsoleLogThrown pathError]))"
  by (cases rule: uploadImageToWNFS_cases [where fs = fs and w = w and img = img])
     (auto simp: eventsSince_def storeCalls_def getPath_cases split: if_splits)

lemma over_limit: "5 < real (file_size overFiveMiB) / (1024 * 1024)"
  by (simp add: file_size_def overFiveMiB_def)

lemma at_limit: "real (file_size fiveMiB) / (1024 * 1024) = 5"
  by (simp add: file_size_def fiveMiB_def)

theorem size_limit_witness:
  "5 < real (file_size overFiveMiB) / (1024 * 1024) \<and>
   fst (uploadImageToWNFS_try memFS overFiveMiB (memWorld PUBLIC [aJpg] [])) = Inl sizeError \<and>
   storeCalls (eventsSince (memWorld PUBLIC [aJpg] [])
      (snd (uploadImageToWNFS memFS overFiveMiB (memWorld PUBLIC [aJpg] [])))) = [] \<and>
   real (file_size fiveMiB) / (1024 * 1024) = 5 \<and>
   (\<exists>es. eventsSince (memWorld PUBLIC [aJpg] [])
            (snd (uploadImageToWNFS memFS fiveMiB (memWorld PUBLIC [aJpg] [])))
         = ConsoleLog ''image'' # Exists (FilePath [''public'', ''gallery'', ''big.jpg'']) # es) \<and>
   real (file_size slashFile) / (1024 * 1024) \<le> 5 \<and>
   eventsSince (memWorld PUBLIC [aJpg] [])
       (snd (uploadImageToWNFS memFS slashFile (memWorld PUBLIC [aJpg] [])))
     = [ConsoleLog ''image'', ConsoleLogThrown pathError]"
proof -
  have p: "galleryFile (selectedArea (galleryStore (memWorld PUBLIC [aJpg] []))) (file_name fiveMiB)
      = FilePath [''public'', ''gallery'', ''big.jpg'']"
    by (simp add: galleryFile_def memWorld_def emptyGallery_def fiveMiB_def)
  have n: "CHR ''/'' \<notin> set (file_name fiveMiB)" "CHR ''/'' \<in> set (file_name slashFile)"
    by (simp_all add: fiveMiB_def slashFile_def)
  have sm: "real (file_size slashFile) / (1024 * 1024) \<le> 5"
    by (simp add: file_size_def slashFile_def)
  from size_limit [of overFiveMiB memFS "memWorld PUBLIC [aJpg] []"] over_limit
  have 1: "fst (uploadImageToWNFS_try memFS overFiveMiB (memWorld PUBLIC [aJpg] [])) = Inl sizeError \<and>
      storeCalls (eventsSince (memWorld PUBLIC [aJpg] [])
        (snd (uploadImageToWNFS memFS overFiveMiB (memWorld PUBLIC [aJpg] [])))) = []"
    by blast
  from size_limit [of fiveMiB memFS "memWorld PUBLIC [aJpg] []"] at_limit n(1)
  have 2: "\<exists>es. eventsSince (memWorld PUBLIC [aJpg] [])
            (snd (uploadImageToWNFS memFS fiveMiB (memWorld PUBLIC [aJpg] [])))
         = ConsoleLog ''image'' # Exists (FilePath [''public'', ''gallery'', ''big.jpg'']) # es"
    unfolding p by simp
  from size_limit [of slashFile memFS "memWorld PUBLIC [aJpg] []"] sm n(2)
  have 3: "eventsSince (memWorld PUBLIC [aJpg] [])
       (snd (uploadImageToWNFS memFS slashFile (memWorld PUBLIC [aJpg] [])))
     = [ConsoleLog ''image'', ConsoleLogThrown pathError]"
    by blast
  show ?thesis using over_limit at_limit sm 1 2 3 by blast
qed

text \<open>
  C5, as amended. For a file that passes the size check and whose name has no forward
  slash: when \<^verbatim>\<open>fs.exists\<close> resolves to true, the upload throws the duplicate error and
  the only call of the file system is the one of \<^verbatim>\<open>fs.exists\<close>; when it resolves to
  false, there is one \<^verbatim>\<open>fs.write\<close> of the file, and when that write resolves one
  \<^verbatim>\<open>fs.publish\<close> follows it, after which the upload has succeeded if the publication
  resolves; when the write rejects nothing is published; when \<^verbatim>\<open>fs.exists\<close> itself
  rejects nothing is written or published. For a name with a forward slash the path
  cannot be built: the upload throws the error of the path and calls the file system not
  at all.
\<close>

theorem upload_check_write_publish:
  assumes "real (file_size img) / (1024 * 1024) \<le> 5"
  shows
  "(CHR ''/'' \<in> set (file_name img) \<longrightarrow>
      fst (uploadImageToWNFS_try fs img w) = Inl pathError \<and>
      storeCalls (eventsSince w (snd (uploadImageToWNFS fs img w))) = [] \<and>
      ConsoleLogThrown pathError \<in> set (eventsSince w (snd (uploadImageToWNFS fs img w)))) \<and>
   (CHR ''/'' \<notin> set (file_name img) \<longrightarrow>
   (fs_exists fs (galleryFile (selectedArea (galleryStore w)) (file_name img)) (filesystemStore w)
      = Inr True \<longrightarrow>
      fst (uploadImageToWNFS_try fs img w) = Inl (existsError (file_name img)) \<and>
      storeCalls (eventsSince w (snd (uploadImageToWNFS fs img w)))
        = [Exists (galleryFile (selectedArea (galleryStore w)) (file_name img))] \<and>
      ConsoleLogThrown (existsError (file_name img))
        \<in> set (eventsSince w (snd (uploadImageToWNFS fs img w)))) \<and>
   (fs_exists fs (galleryFile (selectedArea (galleryStore w)) (file_name img)) (filesystemStore w)
      = Inr False \<longrightarrow>
      (\<forall>s1. fs_write fs (galleryFile (selectedArea (galleryStore w)) (file_name img)) img
               (filesystemStore w) = Inr s1 \<longrightarrow>
         storeCalls (eventsSince w (snd (uploadImageToWNFS fs img w)))
           = [Exists (galleryFile (selectedArea (galleryStore w)) (file_name img)),
              Write (galleryFile (selectedArea (galleryStore w)) (file_name img)) img,
              Publish] \<and>
         (\<forall>s2. fs_publish fs s1 = Inr s2 \<longrightarrow>
            fst (uploadImageToWNFS_try fs img w) = Inr () \<and>
            filesystemStore (snd (uploadImageToWNFS fs img w)) = s2)) \<and>
      (\<forall>e. fs_write fs (galleryFile (selectedArea (galleryStore w)) (file_name img)) img
               (filesystemStore w) = Inl e \<longrightarrow>
         fst (uploadImageToWNFS_try fs img w) = Inl e \<and>
         storeCalls (eventsSince w (snd (uploadImageToWNFS fs img w)))
           = [Exists (galleryFile (selectedArea (galleryStore w)) (file_name img)),
              Write (galleryFile (selectedArea (galleryStore w)) (file_name img)) img])) \<and>
   (\<forall>e. fs_exists fs (galleryFile (selectedArea (galleryStore w)) (file_name img))
           (filesystemStore w) = Inl e \<longrightarrow>
      fst (uploadImageToWNFS_try fs img w) = Inl e \<and>
      storeCalls (eventsSince w (snd (uploadImageToWNFS fs img w)))
        = [Exists (galleryFile (selectedArea (galleryStore w)) (file_name img))]))"
  using assms
  by (cases rule: uploadImageToWNFS_cases [where fs = fs and w = w and img = img])
     (auto simp: eventsSince_def storeCalls_def getPath_cases split: if_splits)

lemma small_files:
  "real (file_size aFile) / (1024 * 1024) \<le> 5" "real (file_size cFile) / (1024 * 1024) \<le> 5"
  "real (file_size slashFile) / (1024 * 1024) \<le> 5"
  by (simp_all add: file_size_def aFile_def cFile_def slashFile_def)

lemma plain_names:
  "CHR ''/'' \<notin> set (file_name aFile)" "CHR ''/'' \<notin> set (file_name cFile)"
  "CHR ''/'' \<in> set (file_name slashFile)"
  by (simp_all add: aFile_def cFile_def slashFile_def)

lemma public_path:
  "galleryFile (selectedArea (galleryStore (memWorld PUBLIC files rejects))) fileName
     = FilePath [''public'', ''gallery'', fileName]"
  by (simp add: galleryFile_def memWorld_def emptyGallery_def)

text \<open>
  C5 as stated fails: on a store that rejects \<^verbatim>\<open>write\<close>, the upload of a new small file
  calls \<^verbatim>\<open>fs.write\<close> once and never \<^verbatim>\<open>fs.publish\<close>.
\<close>

theorem publish_after_write_counterexample:
  "real (file_size cFile) / (1024 * 1024) \<le> 5 \<and>
   fs_exists memFS (FilePath [''public'', ''gallery'', ''c.jpg''])
     (filesystemStore (memWorld PUBLIC [aJpg] [''write''])) = Inr False \<and>
   storeCalls (eventsSince (memWorld PUBLIC [aJpg] [''write''])
     (snd (uploadImageToWNFS memFS cFile (memWorld PUBLIC [aJpg] [''write'']))))
     = [Exists (FilePath [''public'', ''gallery'', ''c.jpg'']),
        Write (FilePath [''public'', ''gallery'', ''c.jpg'']) cFile]"
  by (simp add: small_files)
     (simp add: upload_defs run_defs mem_defs cFile_def aJpg_def eventsSince_def storeCalls_def)

lemma duplicate_exists:
  "fs_exists memFS (galleryFile (selectedArea (galleryStore (memWorld PUBLIC [aJpg] []))) (file_name aFile))
     (filesystemStore (memWorld PUBLIC [aJpg] [])) = Inr True"
  by (simp add: public_path) (simp add: mem_defs aFile_def aJpg_def)

lemma new_file_absent:
  "fs_exists memFS (galleryFile (selectedArea (galleryStore (memWorld PUBLIC [aJpg] rejects))) (file_name cFile))
     (filesystemStore (memWorld PUBLIC [aJpg] rejects)) = (if ''exists'' \<in> set rejects then Inl (StoreFailure ''exists'') else Inr False)"
  by (simp add: public_path) (simp add: mem_defs cFile_def aJpg_def)

lemma write_rejected:
  "fs_write memFS (galleryFile (selectedArea (galleryStore (memWorld PUBLIC [aJpg] [''write'']))) (file_name cFile))
     cFile (filesystemStore (memWorld PUBLIC [aJpg] [''write''])) = Inl (StoreFailure ''write'')"
  by (simp add: public_path) (simp add: mem_defs)

lemma write_resolved:
  "\<exists>s1. fs_write memFS (galleryFile (selectedArea (galleryStore (memWorld PUBLIC [aJpg] []))) (file_name cFile))
     cFile (filesystemStore (memWorld PUBLIC [aJpg] [])) = Inr s1"
  by (simp add: public_path) (simp add: mem_defs)

theorem upload_check_write_publish_witness:
  "real (file_size aFile) / (1024 * 1024) \<le> 5 \<and> real (file_size cFile) / (1024 * 1024) \<le> 5 \<and>
   storeCalls (eventsSince (memWorld PUBLIC [aJpg] [])
       (snd (uploadImageToWNFS memFS aFile (memWorld PUBLIC [aJpg] []))))
     = [Exists (FilePath [''public'', ''gallery'', ''a.jpg''])] \<and>
   storeCalls (eventsSince (memWorld PUBLIC [aJpg] [])
       (snd (uploadImageToWNFS memFS cFile (memWorld PUBLIC [aJpg] []))))
     = [Exists (FilePath [''public'', ''gallery'', ''c.jpg'']),
        Write (FilePath [''public'', ''gallery'', ''c.jpg'']) cFile, Publish] \<and>
   storeCalls (eventsSince (memWorld PUBLIC [aJpg] [''write''])
       (snd (uploadImageToWNFS memFS cFile (memWorld PUBLIC [aJpg] [''write'']))))
     = [Exists (FilePath [''public'', ''gallery'', ''c.jpg'']),
        Write (FilePath [''public'', ''gallery'', ''c.jpg'']) cFile] \<and>
   storeCalls (eventsSince (memWorld PUBLIC [aJpg] [''exists''])
       (snd (uploadImageToWNFS memFS cFile (memWorld PUBLIC [aJpg] [''exists'']))))
     = [Exists (FilePath [''public'', ''gallery'', ''c.jpg''])] \<and>
   CHR ''/'' \<in> set (file_name slashFile) \<and>
   storeCalls (eventsSince (memWorld PUBLIC [aJpg] [])
       (snd (uploadImageToWNFS memFS slashFile (memWorld PUBLIC [aJpg] [])))) = []"
proof -
  have n: "file_name aFile = ''a.jpg''" "file_name cFile = ''c.jpg''"
    by (simp_all add: aFile_def cFile_def)
  note pl = plain_names [unfolded n]
  from upload_check_write_publish [OF small_files(3), of memFS "memWorld PUBLIC [aJpg] []"]
    plain_names(3)
  have 5: "storeCalls (eventsSince (memWorld PUBLIC [aJpg] [])
       (snd (uploadImageToWNFS memFS slashFile (memWorld PUBLIC [aJpg] [])))) = []"
    by blast
  from upload_check_write_publish [OF small_files(1), of memFS "memWorld PUBLIC [aJpg] []"] duplicate_exists
  have 1: "storeCalls (eventsSince (memWorld PUBLIC [aJpg] [])
       (snd (uploadImageToWNFS memFS aFile (memWorld PUBLIC [aJpg] []))))
     = [Exists (FilePath [''public'', ''gallery'', ''a.jpg''])]"
    using pl by (simp add: public_path n)
  obtain s1 where s1: "fs_write memFS
      (galleryFile (selectedArea (galleryStore (memWorld PUBLIC [aJpg] []))) (file_name cFile))
      cFile (filesystemStore (memWorld PUBLIC [aJpg] [])) = Inr s1"
    using write_resolved by blast
  from upload_check_write_publish [OF small_files(2), of memFS "memWorld PUBLIC [aJpg] []"]
    new_file_absent [of "[]"] s1
  have 2: "storeCalls (eventsSince (memWorld PUBLIC [aJpg] [])
       (snd (uploadImageToWNFS memFS cFile (memWorld PUBLIC [aJpg] []))))
     = [Exists (FilePath [''public'', ''gallery'', ''c.jpg'']),
        Write (FilePath [''public'', ''gallery'', ''c.jpg'']) cFile, Publish]"
    using pl by (simp add: public_path n)
  from upload_check_write_publish [OF small_files(2), of memFS "memWorld PUBLIC [aJpg] [''write'']"]
    new_file_absent [of "[''write'']"] write_rejected
  have 3: "storeCalls (eventsSince (memWorld PUBLIC [aJpg] [''write''])
       (snd (uploadImageToWNFS memFS cFile (memWorld PUBLIC [aJpg] [''write'']))))
     = [Exists (FilePath [''public'', ''gallery'', ''c.jpg'']),
        Write (FilePath [''public'', ''gallery'', ''c.jpg'']) cFile]"
    using pl by (simp add: public_path n)
  from upload_check_write_publish [OF small_files(2), of memFS "memWorld PUBLIC [aJpg] [''exists'']"]
    new_file_absent [of "[''exists'']"]
  have 4: "storeCalls (eventsSince (memWorld PUBLIC [aJpg] [''exists''])
       (snd (uploadImageToWNFS memFS cFile (memWorld PUBLIC [aJpg] [''exists'']))))
     = [Exists (FilePath [''public'', ''gallery'', ''c.jpg''])]"
    using pl by (simp add: public_path n)
  show ?thesis using small_files plain_names(3) 1 2 3 4 5 by simp
qed

lemma filter_getCalls: "(\<And>p. \<not> P (Get p)) \<Longrightarrow> filter P (getCalls area links) = []"
  by (induction links) (auto simp: getCalls_def split: sum.splits)

lemma milestones_load:
  "milestones (eventsSince w (snd (getImagesFromWNFS fs w)))
     = [Update ((galleryStore w)\<lparr>loading := True\<rparr>)]"
  by (cases rule: getImagesFromWNFS_cases [of fs w])
     (simp_all add: eventsSince_def milestones_def pushImages_def filter_getCalls)

lemma getImagesFromWNFS_trace:
  "\<exists>es. trace (snd (getImagesFromWNFS fs w)) = trace w @ es"
  by (cases rule: getImagesFromWNFS_cases [of fs w]) simp_all

subsection \<open>The deletion\<close>

text \<open>
  C6, as amended. For a name without a forward slash: when \<^verbatim>\<open>fs.exists\<close> resolves to
  false, the deletion throws the error of a file already deleted, and it has called
  \<^verbatim>\<open>fs.exists\<close> and nothing else. When it resolves to true there is one \<^verbatim>\<open>fs.rm\<close>; when
  that resolves one \<^verbatim>\<open>fs.publish\<close> follows; when that resolves too, the rest of the call
  is one call of \<^verbatim>\<open>getImagesFromWNFS\<close>, so that the removal, the publication and the
  refresh happen once each and in this order. A rejected removal is followed by neither
  publication nor refresh, a rejected publication by no refresh. For a name with a forward
  slash the path cannot be built: the deletion throws the error of the path and calls the
  file system not at all.
\<close>

theorem delete_check_remove_publish_refresh:
  "(CHR ''/'' \<in> set fileName \<longrightarrow>
      fst (deleteImageFromWNFS_try fs fileName w) = Inl pathError \<and>
      eventsSince w (snd (deleteImageFromWNFS fs fileName w)) = [ConsoleError pathError]) \<and>
   (CHR ''/'' \<notin> set fileName \<longrightarrow>
   (fs_exists fs (galleryFile (selectedArea (galleryStore w)) fileName) (filesystemStore w)
      = Inr False \<longrightarrow>
      fst (deleteImageFromWNFS_try fs fileName w) = Inl (deletedError fileName) \<and>
      eventsSince w (snd (deleteImageFromWNFS fs fileName w))
        = [Exists (galleryFile (selectedArea (galleryStore w)) fileName),
           ConsoleError (deletedError fileName)]) \<and>
   (fs_exists fs (galleryFile (selectedArea (galleryStore w)) fileName) (filesystemStore w)
      = Inr True \<longrightarrow>
      (\<forall>e. fs_rm fs (galleryFile (selectedArea (galleryStore w)) fileName) (filesystemStore w)
              = Inl e \<longrightarrow>
         milestones (eventsSince w (snd (deleteImageFromWNFS fs fileName w)))
           = [Rm (galleryFile (selectedArea (galleryStore w)) fileName)]) \<and>
      (\<forall>s1. fs_rm fs (galleryFile (selectedArea (galleryStore w)) fileName) (filesystemStore w)
              = Inr s1 \<longrightarrow>
         (\<forall>e. fs_publish fs s1 = Inl e \<longrightarrow>
            milestones (eventsSince w (snd (deleteImageFromWNFS fs fileName w)))
              = [Rm (galleryFile (selectedArea (galleryStore w)) fileName), Publish]) \<and>
         (\<forall>s2. fs_publish fs s1 = Inr s2 \<longrightarrow>
            deleteImageFromWNFS fs fileName w =
              getImagesFromWNFS fs
                (w\<lparr>filesystemStore := s2,
                   trace := trace w @
                     [Exists (galleryFile (selectedArea (galleryStore w)) fileName),
                      Rm (galleryFile (selectedArea (galleryStore w)) fileName),
                      Publish,
                      ConsoleLog (fileName @ '' image has been deleted'')]\<rparr>) \<and>
            milestones (eventsSince w (snd (deleteImageFromWNFS fs fileName w)))
              = [Rm (galleryFile (selectedArea (galleryStore w)) fileName), Publish,
                 Update ((galleryStore w)\<lparr>loading := True\<rparr>)]))))"
proof (cases "CHR ''/'' \<in> set fileName")
  case True
  then show ?thesis
    by (cases rule: deleteImageFromWNFS_cases [where fs = fs and w = w and fileName = fileName])
       (simp_all add: getPath_cases eventsSince_def)
next
  case False
  let ?p = "galleryFile (selectedArea (galleryStore w)) fileName"
  show ?thesis
  proof (cases rule: deleteImageFromWNFS_cases [where fs = fs and w = w and fileName = fileName])
    case (bad_path e)
    then show ?thesis using False by (simp add: getPath_cases)
  next
    case (exists_rejects p e)
    then show ?thesis using False by (simp add: getPath_cases)
  next
    case (not_found p)
    then show ?thesis using False by (auto simp: getPath_cases eventsSince_def)
  next
    case (rm_rejects p e)
    then show ?thesis using False by (auto simp: getPath_cases eventsSince_def milestones_def)
  next
    case (publish_rejects p s1 e)
    then show ?thesis using False by (auto simp: getPath_cases eventsSince_def milestones_def)
  next
    case (deleted p s1 s2)
    then have p: "p = ?p" using False by (simp add: getPath_cases)
    let ?es = "[Exists ?p, Rm ?p, Publish, ConsoleLog (fileName @ '' image has been deleted'')]"
    let ?w3 = "w\<lparr>filesystemStore := s2, trace := trace w @ ?es\<rparr>"
    obtain es2 where es2: "trace (snd (getImagesFromWNFS fs ?w3)) = trace ?w3 @ es2"
      using getImagesFromWNFS_trace [of fs ?w3] by blast
    have "eventsSince w (snd (getImagesFromWNFS fs ?w3))
            = ?es @ eventsSince ?w3 (snd (getImagesFromWNFS fs ?w3))"
      unfolding eventsSince_def es2 by simp
    then have "milestones (eventsSince w (snd (getImagesFromWNFS fs ?w3)))
        = milestones ?es @ [Update ((galleryStore w)\<lparr>loading := True\<rparr>)]"
      using milestones_load [of ?w3 fs] by (simp add: milestones_def)
    then have "milestones (eventsSince w (snd (deleteImageFromWNFS fs fileName w)))
        = [Rm ?p, Publish, Update ((galleryStore w)\<lparr>loading := True\<rparr>)]"
      unfolding deleted(6) p by (simp add: milestones_def)
    then show ?thesis using deleted(2,3,4,6) False p by simp
  qed
qed

lemma aJpg_exists:
  "fs_exists memFS (galleryFile (selectedArea (galleryStore (memWorld PUBLIC [aJpg] rejects))) ''a.jpg'')
     (filesystemStore (memWorld PUBLIC [aJpg] rejects))
   = (if ''exists'' \<in> set rejects then Inl (StoreFailure ''exists'') else Inr True)"
  by (simp add: public_path) (simp add: mem_defs aJpg_def)

lemma zJpg_absent:
  "fs_exists memFS (galleryFile (selectedArea (galleryStore (memWorld PUBLIC [aJpg] []))) ''z.jpg'')
     (filesystemStore (memWorld PUBLIC [aJpg] [])) = Inr False"
  by (simp add: public_path) (simp add: mem_defs aJpg_def)

lemma aJpg_removed:
  "fs_rm memFS (galleryFile (selectedArea (galleryStore (memWorld PUBLIC [aJpg] rejects))) ''a.jpg'')
     (filesystemStore (memWorld PUBLIC [aJpg] rejects))
   = (if ''rm'' \<in> set rejects then Inl (StoreFailure ''rm'')
      else Inr \<lparr>mem_files = [], mem_rejects = rejects, mem_clock = 100\<rparr>)"
  by (simp add: public_path) (simp add: mem_defs aJpg_def)

lemma publish_outcome:
  "fs_publish memFS \<lparr>mem_files = [], mem_rejects = rejects, mem_clock = 100\<rparr>
   = (if ''publish'' \<in> set rejects then Inl (StoreFailure ''publish'')
      else Inr \<lparr>mem_files = [], mem_rejects = rejects, mem_clock = 100\<rparr>)"
  by (simp add: mem_defs)

text \<open>
  C6 as stated fails: on a store that rejects \<^verbatim>\<open>publish\<close>, the deletion of a file that
  exists removes it and calls \<^verbatim>\<open>fs.publish\<close>, and no refresh follows.
\<close>

theorem refresh_after_remove_counterexample:
  "fs_exists memFS (FilePath [''public'', ''gallery'', ''a.jpg''])
     (filesystemStore (memWorld PUBLIC [aJpg] [''publish''])) = Inr True \<and>
   milestones (eventsSince (memWorld PUBLIC [aJpg] [''publish''])
     (snd (deleteImageFromWNFS memFS ''a.jpg'' (memWorld PUBLIC [aJpg] [''publish'']))))
     = [Rm (FilePath [''public'', ''gallery'', ''a.jpg'']), Publish]"
  by (simp add: delete_defs run_defs mem_defs aJpg_def eventsSince_def milestones_def)

theorem delete_check_remove_publish_refresh_witness:
  "fs_exists memFS (galleryFile (selectedArea (galleryStore (memWorld PUBLIC [aJpg] []))) ''z.jpg'')
     (filesystemStore (memWorld PUBLIC [aJpg] [])) = Inr False \<and>
   eventsSince (memWorld PUBLIC [aJpg] [])
       (snd (deleteImageFromWNFS memFS ''z.jpg'' (memWorld PUBLIC [aJpg] [])))
     = [Exists (FilePath [''public'', ''gallery'', ''z.jpg'']),
        ConsoleError (deletedError ''z.jpg'')] \<and>
   fs_exists memFS (galleryFile (selectedArea (galleryStore (memWorld PUBLIC [aJpg] []))) ''a.jpg'')
     (filesystemStore (memWorld PUBLIC [aJpg] [])) = Inr True \<and>
   milestones (eventsSince (memWorld PUBLIC [aJpg] [])
       (snd (deleteImageFromWNFS memFS ''a.jpg'' (memWorld PUBLIC [aJpg] []))))
     = [Rm (FilePath [''public'', ''gallery'', ''a.jpg'']), Publish,
        Update ((emptyGallery PUBLIC)\<lparr>loading := True\<rparr>)] \<and>
   milestones (eventsSince (memWorld PUBLIC [aJpg] [''rm''])
       (snd (deleteImageFromWNFS memFS ''a.jpg'' (memWorld PUBLIC [aJpg] [''rm'']))))
     = [Rm (FilePath [''public'', ''gallery'', ''a.jpg''])] \<and>
   milestones (eventsSince (memWorld PUBLIC [aJpg] [''publish''])
       (snd (deleteImageFromWNFS memFS ''a.jpg'' (memWorld PUBLIC [aJpg] [''publish'']))))
     = [Rm (FilePath [''public'', ''gallery'', ''a.jpg'']), Publish] \<and>
   eventsSince (memWorld PUBLIC [aJpg] [])
       (snd (deleteImageFromWNFS memFS ''x/y.jpg'' (memWorld PUBLIC [aJpg] [])))
     = [ConsoleError pathError]"
proof -
  have pl: "CHR ''/'' \<notin> set ''z.jpg''" "CHR ''/'' \<notin> set ''a.jpg''"
    "CHR ''/'' \<in> set ''x/y.jpg''"
    by simp_all
  let ?wa = "memWorld PUBLIC [aJpg] []"
  let ?wr = "memWorld PUBLIC [aJpg] [''rm'']"
  let ?wp = "memWorld PUBLIC [aJpg] [''publish'']"
  have g: "galleryStore ?wa = emptyGallery PUBLIC"
    by (simp add: memWorld_def)
  have absent: "fs_exists memFS (galleryFile (selectedArea (galleryStore ?wa)) ''z.jpg'')
      (filesystemStore ?wa) = Inr False"
    by (rule zJpg_absent)
  have ex: "fs_exists memFS (galleryFile (selectedArea (galleryStore ?wa)) ''a.jpg'')
      (filesystemStore ?wa) = Inr True"
    "fs_exists memFS (galleryFile (selectedArea (galleryStore ?wr)) ''a.jpg'')
      (filesystemStore ?wr) = Inr True"
    "fs_exists memFS (galleryFile (selectedArea (galleryStore ?wp)) ''a.jpg'')
      (filesystemStore ?wp) = Inr True"
    by (simp_all add: aJpg_exists)
  have rm: "fs_rm memFS (galleryFile (selectedArea (galleryStore ?wa)) ''a.jpg'')
      (filesystemStore ?wa) = Inr \<lparr>mem_files = [], mem_rejects = [], mem_clock = 100\<rparr>"
    "fs_rm memFS (galleryFile (selectedArea (galleryStore ?wr)) ''a.jpg'')
      (filesystemStore ?wr) = Inl (StoreFailure ''rm'')"
    "fs_rm memFS (galleryFile (selectedArea (galleryStore ?wp)) ''a.jpg'')
      (filesystemStore ?wp) = Inr \<lparr>mem_files = [], mem_rejects = [''publish''], mem_clock = 100\<rparr>"
    by (simp_all add: aJpg_removed)
  have pu: "fs_publish memFS \<lparr>mem_files = [], mem_rejects = [], mem_clock = 100\<rparr>
      = Inr \<lparr>mem_files = [], mem_rejects = [], mem_clock = 100\<rparr>"
    "fs_publish memFS \<lparr>mem_files = [], mem_rejects = [''publish''], mem_clock = 100\<rparr>
      = Inl (StoreFailure ''publish'')"
    by (simp_all add: publish_outcome)
  from delete_check_remove_publish_refresh [of "''x/y.jpg''" memFS ?wa] pl(3)
  have 5: "eventsSince ?wa (snd (deleteImageFromWNFS memFS ''x/y.jpg'' ?wa))
     = [ConsoleError pathError]"
    by blast
  from delete_check_remove_publish_refresh [of "''z.jpg''" memFS ?wa] absent pl(1)
  have "eventsSince ?wa (snd (deleteImageFromWNFS memFS ''z.jpg'' ?wa))
     = [Exists (galleryFile (selectedArea (galleryStore ?wa)) ''z.jpg''),
        ConsoleError (deletedError ''z.jpg'')]"
    by blast
  then have 1: "eventsSince ?wa (snd (deleteImageFromWNFS memFS ''z.jpg'' ?wa))
     = [Exists (FilePath [''public'', ''gallery'', ''z.jpg'']),
        ConsoleError (deletedError ''z.jpg'')]"
    unfolding public_path .
  from delete_check_remove_publish_refresh [of "''a.jpg''" memFS ?wa] ex(1) rm(1) pu(1) pl(2)
  have "milestones (eventsSince ?wa (snd (deleteImageFromWNFS memFS ''a.jpg'' ?wa)))
     = [Rm (galleryFile (selectedArea (galleryStore ?wa)) ''a.jpg''), Publish,
        Update ((galleryStore ?wa)\<lparr>loading := True\<rparr>)]"
    by blast
  then have 2: "milestones (eventsSince ?wa (snd (deleteImageFromWNFS memFS ''a.jpg'' ?wa)))
     = [Rm (FilePath [''public'', ''gallery'', ''a.jpg'']), Publish,
        Update ((emptyGallery PUBLIC)\<lparr>loading := True\<rparr>)]"
    unfolding public_path unfolding g .
  from delete_check_remove_publish_refresh [of "''a.jpg''" memFS ?wr] ex(2) rm(2) pl(2)
  have "milestones (eventsSince ?wr (snd (deleteImageFromWNFS memFS ''a.jpg'' ?wr)))
     = [Rm (galleryFile (selectedArea (galleryStore ?wr)) ''a.jpg'')]"
    by blast
  then have 3: "milestones (eventsSince ?wr (snd (deleteImageFromWNFS memFS ''a.jpg'' ?wr)))
     = [Rm (FilePath [''public'', ''gallery'', ''a.jpg''])]"
    unfolding public_path .
  from delete_check_remove_publish_refresh [of "''a.jpg''" memFS ?wp] ex(3) rm(3) pu(2) pl(2)
  have "milestones (eventsSince ?wp (snd (deleteImageFromWNFS memFS ''a.jpg'' ?wp)))
     = [Rm (galleryFile (selectedArea (galleryStore ?wp)) ''a.jpg''), Publish]"
    by blast
  then have 4: "milestones (eventsSince ?wp (snd (deleteImageFromWNFS memFS ''a.jpg'' ?wp)))
     = [Rm (FilePath [''public'', ''gallery'', ''a.jpg'']), Publish]"
    unfolding public_path .
  show ?thesis using absent ex(1) 1 2 3 4 5 by (intro conjI)
qed

subsection \<open>Uploads as tasks\<close>

lemma meanwhile_trace [simp]: "trace (meanwhile i w) = trace w"
  by (simp add: meanwhile_def split: prod.splits)

lemma meanwhile_id [simp]: "meanwhile (\<lambda>x. x) w = w"
  by (simp add: meanwhile_def)

lemma uploadStart_cases:
  "uploadStart img w =
     (if 5 < real (file_size img) / (1024 * 1024)
      then (Settled, w\<lparr>trace := trace w @ [ConsoleLog ''image'', ConsoleLogThrown sizeError]\<rparr>)
      else if CHR ''/'' \<in> set (file_name img)
      then (Settled, w\<lparr>trace := trace w @ [ConsoleLog ''image'', ConsoleLogThrown pathError]\<rparr>)
      else (AtExists (selectedArea (galleryStore w)) img
              (galleryFile (selectedArea (galleryStore w)) (file_name img)),
            w\<lparr>trace := trace w @ [ConsoleLog ''image'',
                 Exists (galleryFile (selectedArea (galleryStore w)) (file_name img))]\<rparr>))"
  by (simp add: uploadStart_def Let_def called_def logged_def FILE_SIZE_LIMIT_def getPath_cases)

lemma storeCalls_Nil [simp]: "storeCalls [] = []"
  by (simp add: storeCalls_def)

lemma storeCalls_append [simp]: "storeCalls (xs @ ys) = storeCalls xs @ storeCalls ys"
  by (simp add: storeCalls_def)

lemma uploadResume_events:
  "uploadResume fs t w = (t2, w2) \<Longrightarrow>
   (\<exists>es. trace w2 = trace w @ es \<and>
     (case t of
        AtExists area img checked \<Rightarrow>
          (t2 = Settled \<and> storeCalls es = []) \<or>
          (t2 = AtWrite area img (galleryFile area (file_name img)) \<and>
           storeCalls es = [Write (galleryFile area (file_name img)) img])
      | AtWrite area img written \<Rightarrow>
          (t2 = Settled \<and> storeCalls es = []) \<or>
          (t2 = AtPublish area img \<and> storeCalls es = [Publish])
      | AtPublish area img \<Rightarrow> t2 = Settled \<and> storeCalls es = []
      | Settled \<Rightarrow> t2 = Settled \<and> es = []))"
  by (cases t)
     (auto simp: logged_def called_def storeCalls_def getPath_cases split: sum.splits if_splits)

lemma uploadAmid_runUpload:
  "uploadAmid fs (\<lambda>x. x) (\<lambda>x. x) (\<lambda>x. x) img w =
     runUpload fs (fst (uploadStart img w)) (snd (uploadStart img w))"
  by (simp add: uploadAmid_def runUpload_def split: prod.splits)

lemma uploadAmid_alone:
  "uploadAmid fs (\<lambda>x. x) (\<lambda>x. x) (\<lambda>x. x) img w = snd (uploadImageToWNFS fs img w)"
  by (cases rule: uploadImageToWNFS_cases [where fs = fs and w = w and img = img])
     (simp_all add: uploadAmid_def uploadStart_cases logged_def called_def getPath_cases
        split: if_splits)

text \<open>
  C10. An upload reads the selected area once, at entry. Whatever other tasks do to the
  gallery state and to the store while the upload is suspended at \<^verbatim>\<open>fs.exists\<close>,
  \<^verbatim>\<open>fs.write\<close> or \<^verbatim>\<open>fs.publish\<close>, the calls of the file system it makes are a call of
  \<^verbatim>\<open>fs.exists\<close>, then possibly one of \<^verbatim>\<open>fs.write\<close>, then possibly one of \<^verbatim>\<open>fs.publish\<close>,
  and the existence check and the write are given the same path, the one of the area
  selected at entry and the name of the file. With no other task running, the task is
  \<^verbatim>\<open>uploadImageToWNFS\<close>.
\<close>

theorem upload_path_fixed_at_entry:
  "uploadAmid fs (\<lambda>x. x) (\<lambda>x. x) (\<lambda>x. x) img w = snd (uploadImageToWNFS fs img w) \<and>
   storeCalls (eventsSince w (uploadAmid fs i1 i2 i3 img w)) \<in>
     {[],
      [Exists (galleryFile (selectedArea (galleryStore w)) (file_name img))],
      [Exists (galleryFile (selectedArea (galleryStore w)) (file_name img)),
       Write (galleryFile (selectedArea (galleryStore w)) (file_name img)) img],
      [Exists (galleryFile (selectedArea (galleryStore w)) (file_name img)),
       Write (galleryFile (selectedArea (galleryStore w)) (file_name img)) img,
       Publish]}"
proof (rule conjI [OF uploadAmid_alone])
  let ?area = "selectedArea (galleryStore w)"
  let ?p = "galleryFile ?area (file_name img)"
  obtain t0 w0 where s: "uploadStart img w = (t0, w0)" by (cases "uploadStart img w")
  obtain t1 w1 where r1: "uploadResume fs t0 (meanwhile i1 w0) = (t1, w1)"
    by (cases "uploadResume fs t0 (meanwhile i1 w0)")
  obtain t2 w2 where r2: "uploadResume fs t1 (meanwhile i2 w1) = (t2, w2)"
    by (cases "uploadResume fs t1 (meanwhile i2 w1)")
  obtain t3 w3 where r3: "uploadResume fs t2 (meanwhile i3 w2) = (t3, w3)"
    by (cases "uploadResume fs t2 (meanwhile i3 w2)")
  have u: "uploadAmid fs i1 i2 i3 img w = w3"
    by (simp add: uploadAmid_def s r1 r2 r3)
  from uploadResume_events [OF r1] obtain es1 where
    e1: "trace w1 = trace w0 @ es1" and
    c1: "case t0 of
        AtExists area img checked \<Rightarrow>
          (t1 = Settled \<and> storeCalls es1 = []) \<or>
          (t1 = AtWrite area img (galleryFile area (file_name img)) \<and>
           storeCalls es1 = [Write (galleryFile area (file_name img)) img])
      | AtWrite area img written \<Rightarrow>
          (t1 = Settled \<and> storeCalls es1 = []) \<or>
          (t1 = AtPublish area img \<and> storeCalls es1 = [Publish])
      | AtPublish area img \<Rightarrow> t1 = Settled \<and> storeCalls es1 = []
      | Settled \<Rightarrow> t1 = Settled \<and> es1 = []"
    by auto
  from uploadResume_events [OF r2] obtain es2 where
    e2: "trace w2 = trace w1 @ es2" and
    c2: "case t1 of
        AtExists area img checked \<Rightarrow>
          (t2 = Settled \<and> storeCalls es2 = []) \<or>
          (t2 = AtWrite area img (galleryFile area (file_name img)) \<and>
           storeCalls es2 = [Write (galleryFile area (file_name img)) img])
      | AtWrite area img written \<Rightarrow>
          (t2 = Settled \<and> storeCalls es2 = []) \<or>
          (t2 = AtPublish area img \<and> storeCalls es2 = [Publish])
      | AtPublish area img \<Rightarrow> t2 = Settled \<and> storeCalls es2 = []
      | Settled \<Rightarrow> t2 = Settled \<and> es2 = []"
    by auto
  from uploadResume_events [OF r3] obtain es3 where
    e3: "trace w3 = trace w2 @ es3" and
    c3: "case t2 of
        AtExists area img checked \<Rightarrow>
          (t3 = Settled \<and> storeCalls es3 = []) \<or>
          (t3 = AtWrite area img (galleryFile area (file_name img)) \<and>
           storeCalls es3 = [Write (galleryFile area (file_name img)) img])
      | AtWrite area img written \<Rightarrow>
          (t3 = Settled \<and> storeCalls es3 = []) \<or>
          (t3 = AtPublish area img \<and> storeCalls es3 = [Publish])
      | AtPublish area img \<Rightarrow> t3 = Settled \<and> storeCalls es3 = []
      | Settled \<Rightarrow> t3 = Settled \<and> es3 = []"
    by auto
  show "storeCalls (eventsSince w (uploadAmid fs i1 i2 i3 img w)) \<in>
     {[], [Exists ?p], [Exists ?p, Write ?p img], [Exists ?p, Write ?p img, Publish]}"
  proof (cases "5 < real (file_size img) / (1024 * 1024) \<or> CHR ''/'' \<in> set (file_name img)")
    case True
    with s have "t0 = Settled"
      and "storeCalls (eventsSince w w0) = []"
      and "\<exists>es. trace w0 = trace w @ es"
      by (auto simp: uploadStart_cases eventsSince_def storeCalls_def split: if_splits)
    with c1 c2 c3 e1 e2 e3 show ?thesis
      unfolding u by (auto simp: eventsSince_def storeCalls_def)
  next
    case False
    with s have t0: "t0 = AtExists ?area img ?p"
      and w0: "trace w0 = trace w @ [ConsoleLog ''image'', Exists ?p]"
      by (auto simp: uploadStart_cases)
    have ev: "eventsSince w w3 = [ConsoleLog ''image'', Exists ?p] @ es1 @ es2 @ es3"
      using w0 e1 e2 e3 by (simp add: eventsSince_def)
    have sc: "storeCalls (eventsSince w w3)
        = [Exists ?p] @ storeCalls es1 @ storeCalls es2 @ storeCalls es3"
      unfolding ev by (simp add: storeCalls_def)
    from c1 t0 consider
      (settled) "t1 = Settled" "storeCalls es1 = []"
      | (written) "t1 = AtWrite ?area img ?p" "storeCalls es1 = [Write ?p img]"
      by auto
    then show ?thesis
    proof cases
      case settled
      with c2 c3 have "storeCalls es2 = []" "storeCalls es3 = []" by auto
      with settled sc show ?thesis unfolding u by simp
    next
      case written
      with c2 consider
        (settled2) "t2 = Settled" "storeCalls es2 = []"
        | (publish) "t2 = AtPublish ?area img" "storeCalls es2 = [Publish]"
        by auto
      then show ?thesis
      proof cases
        case settled2
        with c3 have "storeCalls es3 = []" by auto
        with written settled2 sc show ?thesis unfolding u by simp
      next
        case publish
        with c3 have "storeCalls es3 = []" by auto
        with written publish sc show ?thesis unfolding u by simp
      qed
    qed
  qed
qed

text \<open>
  An upload to the public gallery during which another task selects the private area:
  the check and the write are both for the public path.
\<close>

lemma switched_example:
  "storeCalls (eventsSince (memWorld PUBLIC [aJpg] [])
      (uploadAmid memFS switchArea switchArea switchArea cFile (memWorld PUBLIC [aJpg] [])))
   = [Exists (FilePath [''public'', ''gallery'', ''c.jpg'']),
      Write (FilePath [''public'', ''gallery'', ''c.jpg'']) cFile, Publish]"
  by (simp add: uploadAmid_def uploadStart_cases meanwhile_def switchArea_def logged_def called_def
      mem_defs cFile_def aJpg_def file_size_def galleryFile_def getPath_cases eventsSince_def
      storeCalls_def)


lemma uploadStart_shift:
  "galleryStore w1 = galleryStore w \<Longrightarrow>
   uploadStart f w1 =
     (fst (uploadStart f w), w1\<lparr>trace := trace w1 @ eventsSince w (snd (uploadStart f w))\<rparr>)"
  by (simp add: uploadStart_cases eventsSince_def)

lemma startUploads_shift:
  "galleryStore w1 = galleryStore w \<Longrightarrow>
   startUploads files w1 =
     (map (\<lambda>f. fst (uploadStart f w)) files,
      w1\<lparr>trace := trace w1 @ concat (map (\<lambda>f. eventsSince w (snd (uploadStart f w))) files)\<rparr>)"
proof (induction files arbitrary: w1)
  case Nil
  show ?case by simp
next
  case (Cons f files)
  let ?w2 = "w1\<lparr>trace := trace w1 @ eventsSince w (snd (uploadStart f w))\<rparr>"
  have g: "galleryStore ?w2 = galleryStore w" using Cons.prems by simp
  show ?case
    by (simp add: uploadStart_shift [OF Cons.prems] Cons.IH [OF g])
qed

lemma startUploads_tasks:
  "fst (startUploads files w) = map (\<lambda>f. fst (uploadStart f w)) files"
  by (simp add: startUploads_shift [of w w])

lemma startUploads_events:
  "eventsSince w (snd (startUploads files w))
     = concat (map (\<lambda>f. eventsSince w (snd (uploadStart f w))) files)"
  by (simp add: startUploads_shift [of w w] eventsSince_def)

lemma uploadStart_frame:
  "uploadStart img w = (t, w1) \<Longrightarrow>
   galleryStore w1 = galleryStore w \<and> filesystemStore w1 = filesystemStore w \<and>
   (\<exists>es. trace w1 = trace w @ es \<and> refreshes es = 0 \<and> imageLogs es = 1)"
  by (auto simp: uploadStart_cases refreshes_def imageLogs_def split: if_splits)

lemma startUploads_frame:
  "startUploads files w = (ts, w1) \<Longrightarrow>
   length ts = length files \<and> galleryStore w1 = galleryStore w \<and>
   filesystemStore w1 = filesystemStore w \<and>
   (\<exists>es. trace w1 = trace w @ es \<and> refreshes es = 0 \<and> imageLogs es = length files)"
proof (induction files arbitrary: w ts)
  case Nil
  then show ?case by (simp add: refreshes_def imageLogs_def)
next
  case (Cons f files)
  obtain t wa where a: "uploadStart f w = (t, wa)" by (cases "uploadStart f w")
  obtain ts1 where b: "startUploads files wa = (ts1, w1)" and ts: "ts = t # ts1"
    using Cons.prems a by (auto split: prod.splits)
  from uploadStart_frame [OF a] obtain es1 where
    1: "galleryStore wa = galleryStore w" "filesystemStore wa = filesystemStore w"
       "trace wa = trace w @ es1" "refreshes es1 = 0" "imageLogs es1 = 1"
    by blast
  from Cons.IH [OF b] obtain es2 where
    2: "length ts1 = length files" "galleryStore w1 = galleryStore wa"
       "filesystemStore w1 = filesystemStore wa"
       "trace w1 = trace wa @ es2" "refreshes es2 = 0" "imageLogs es2 = length files"
    by blast
  have "trace w1 = trace w @ (es1 @ es2)" "refreshes (es1 @ es2) = 0"
    "imageLogs (es1 @ es2) = length (f # files)"
    using 1 2 by (simp_all add: refreshes_def imageLogs_def)
  then show ?case using 1 2 ts by auto
qed

lemma uploadResume_frame:
  "uploadResume fs t w = (t2, w2) \<Longrightarrow>
   galleryStore w2 = galleryStore w \<and>
   (\<exists>es. trace w2 = trace w @ es \<and> refreshes es = 0 \<and> imageLogs es = 0)"
  by (cases t)
     (auto simp: logged_def called_def refreshes_def imageLogs_def getPath_cases
        split: sum.splits if_splits)

lemma pendingUploads_Nil:
  "pendingUploads ts = [] \<Longrightarrow> ts = replicate (length ts) Settled"
proof -
  assume "pendingUploads ts = []"
  then have "\<forall>k < length ts. ts ! k = Settled"
    by (auto simp: pendingUploads_def filter_empty_conv)
  then show ?thesis by (intro nth_equalityI) simp_all
qed

lemma settleUploads_frame:
  "settleUploads fs sched ts w = (ts2, w2) \<Longrightarrow>
   ts2 = replicate (length ts) Settled \<and> galleryStore w2 = galleryStore w \<and>
   (\<exists>es. trace w2 = trace w @ es \<and> refreshes es = 0 \<and> imageLogs es = 0)"
proof (induction fs sched ts w rule: settleUploads.induct)
  case (1 fs sched ts w)
  show ?case
  proof (cases "pendingUploads ts = []")
    case True
    with "1.prems" have "ts2 = ts" "w2 = w"
      by (simp_all add: settleUploads.simps [of fs sched ts w])
    with pendingUploads_Nil [OF True] show ?thesis
      by (simp add: refreshes_def imageLogs_def)
  next
    case False
    let ?k = "nextUpload sched (pendingUploads ts)"
    obtain t w1 where r: "uploadResume fs (ts ! ?k) w = (t, w1)"
      by (cases "uploadResume fs (ts ! ?k) w")
    have s: "settleUploads fs (tl sched) (ts[?k := t]) w1 = (ts2, w2)"
      using "1.prems" False r by (simp add: settleUploads.simps [of fs sched ts w])
    from "1.IH" [OF False r [symmetric] s] obtain es2 where
      2: "ts2 = replicate (length ts) Settled" "galleryStore w2 = galleryStore w1"
         "trace w2 = trace w1 @ es2" "refreshes es2 = 0" "imageLogs es2 = 0"
      by auto
    from uploadResume_frame [OF r] obtain es1 where
      1: "galleryStore w1 = galleryStore w" "trace w1 = trace w @ es1" "refreshes es1 = 0"
         "imageLogs es1 = 0"
      by blast
    have "trace w2 = trace w @ (es1 @ es2)" "refreshes (es1 @ es2) = 0"
      "imageLogs (es1 @ es2) = 0"
      using 1 2 by (simp_all add: refreshes_def imageLogs_def)
    then show ?thesis using 1 2 by auto
  qed
qed

lemma refreshes_load:
  "refreshes (eventsSince w (snd (getImagesFromWNFS fs w))) = 1"
  by (cases rule: getImagesFromWNFS_cases [of fs w])
     (simp_all add: eventsSince_def refreshes_def pushImages_def filter_getCalls)


lemma settleUploads_interleaving:
  "\<exists>ks. list_all (\<lambda>k. k < length ts) ks \<and>
        settleUploads fs sched ts w = foldl (resumeAt fs) (ts, w) ks"
proof (induction fs sched ts w rule: settleUploads.induct)
  case (1 fs sched ts w)
  show ?case
  proof (cases "pendingUploads ts = []")
    case True
    then have "settleUploads fs sched ts w = foldl (resumeAt fs) (ts, w) []"
      by (simp add: settleUploads.simps [of fs sched ts w])
    then show ?thesis by (intro exI [of _ "[]"]) simp
  next
    case False
    let ?k = "nextUpload sched (pendingUploads ts)"
    obtain t w1 where r: "uploadResume fs (ts ! ?k) w = (t, w1)"
      by (cases "uploadResume fs (ts ! ?k) w")
    have k: "?k < length ts"
      using nextUpload_pending [OF False] pendingUploads_member by blast
    from "1.IH" [OF False r [symmetric]] obtain ks where
      ks: "list_all (\<lambda>k. k < length (ts[?k := t])) ks"
        "settleUploads fs (tl sched) (ts[?k := t]) w1 = foldl (resumeAt fs) (ts[?k := t], w1) ks"
      by blast
    have "settleUploads fs sched ts w = foldl (resumeAt fs) (ts, w) (?k # ks)"
      using False r ks(2) by (simp add: settleUploads.simps [of fs sched ts w] resumeAt_def)
    moreover have "list_all (\<lambda>k. k < length ts) (?k # ks)" using k ks(1) by simp
    ultimately show ?thesis by blast
  qed
qed

subsection \<open>The uploads of a batch resumed in the order of the files\<close>

lemma pendingUploads_Cons:
  "pendingUploads (t # ts) =
     (if t = Settled then [] else [0]) @ map Suc (pendingUploads ts)"
proof -
  have "[0..<length (t # ts)] = 0 # map Suc [0..<length ts]"
    by (simp add: upt_conv_Cons map_Suc_upt del: upt_Suc)
  then show ?thesis
    by (simp add: pendingUploads_def filter_map comp_def del: upt_Suc)
qed

lemma nextUpload_map_Suc:
  "pending \<noteq> [] \<Longrightarrow> nextUpload sched (map Suc pending) = Suc (nextUpload sched pending)"
  by (cases sched) (simp_all add: nextUpload_def hd_map)

lemma settleUploads_Settled:
  "settleUploads fs sched (Settled # ts) w =
     (case settleUploads fs sched ts w of (ts2, w2) \<Rightarrow> (Settled # ts2, w2))"
proof (induction fs sched ts w rule: settleUploads.induct)
  case (1 fs sched ts w)
  show ?case
  proof (cases "pendingUploads ts = []")
    case True
    then show ?thesis
      by (simp add: settleUploads.simps [of fs sched ts w]
          settleUploads.simps [of fs sched "Settled # ts" w] pendingUploads_Cons)
  next
    case False
    let ?k = "nextUpload sched (pendingUploads ts)"
    obtain t w1 where r: "uploadResume fs (ts ! ?k) w = (t, w1)"
      by (cases "uploadResume fs (ts ! ?k) w")
    have "settleUploads fs sched (Settled # ts) w
        = settleUploads fs (tl sched) (Settled # ts[?k := t]) w1"
      using False r
      by (simp add: settleUploads.simps [of fs sched "Settled # ts" w] pendingUploads_Cons
          nextUpload_map_Suc)
    also have "\<dots> = (case settleUploads fs (tl sched) (ts[?k := t]) w1 of
                       (ts2, w2) \<Rightarrow> (Settled # ts2, w2))"
      by (rule "1.IH" [OF False r [symmetric]])
    also have "settleUploads fs (tl sched) (ts[?k := t]) w1 = settleUploads fs sched ts w"
      using False r by (simp add: settleUploads.simps [of fs sched ts w])
    finally show ?thesis .
  qed
qed

lemma settleUploads_first:
  "t \<noteq> Settled \<Longrightarrow>
   settleUploads fs [] (t # ts) w =
     (case uploadResume fs t w of (t1, w1) \<Rightarrow> settleUploads fs [] (t1 # ts) w1)"
  by (simp add: settleUploads.simps [of fs "[]" "t # ts" w] pendingUploads_Cons nextUpload_def)

lemma settleUploads_runUpload:
  "snd (settleUploads fs [] (t # ts) w) = snd (settleUploads fs [] ts (runUpload fs t w))"
proof -
  obtain t1 w1 where r1: "uploadResume fs t w = (t1, w1)" by (cases "uploadResume fs t w")
  obtain t2 w2 where r2: "uploadResume fs t1 w1 = (t2, w2)" by (cases "uploadResume fs t1 w1")
  obtain t3 w3 where r3: "uploadResume fs t2 w2 = (t3, w3)" by (cases "uploadResume fs t2 w2")
  have a1: "awaitsLeft t1 < awaitsLeft t \<or> (t = Settled \<and> t1 = Settled \<and> w1 = w)"
    using uploadResume_awaitsLeft [of t fs w] r1 by (cases "t = Settled") auto
  have a2: "awaitsLeft t2 < awaitsLeft t1 \<or> (t1 = Settled \<and> t2 = Settled \<and> w2 = w1)"
    using uploadResume_awaitsLeft [of t1 fs w1] r2 by (cases "t1 = Settled") auto
  have a3: "awaitsLeft t3 < awaitsLeft t2 \<or> (t2 = Settled \<and> t3 = Settled \<and> w3 = w2)"
    using uploadResume_awaitsLeft [of t2 fs w2] r3 by (cases "t2 = Settled") auto
  have le: "awaitsLeft t \<le> 3" by (cases t) simp_all
  have "awaitsLeft t3 = 0" using a1 a2 a3 le by auto
  then have t3: "t3 = Settled" by (cases t3) simp_all
  have run: "runUpload fs t w = w3" by (simp add: runUpload_def r1 r2 r3)
  have "snd (settleUploads fs [] (t # ts) w) = snd (settleUploads fs [] ts w3)"
  proof (cases "t = Settled")
    case True
    then show ?thesis using r1 r2 r3 by (simp add: settleUploads_Settled split: prod.splits)
  next
    case f1: False
    show ?thesis
    proof (cases "t1 = Settled")
      case True
      then show ?thesis
        using f1 r1 r2 r3
        by (simp add: settleUploads_first settleUploads_Settled split: prod.splits)
    next
      case f2: False
      show ?thesis
      proof (cases "t2 = Settled")
        case True
        then show ?thesis
          using f1 f2 r1 r2 r3
          by (simp add: settleUploads_first settleUploads_Settled split: prod.splits)
      next
        case f3: False
        then show ?thesis
          using f1 f2 r1 r2 r3 t3
          by (simp add: settleUploads_first settleUploads_Settled split: prod.splits)
      qed
    qed
  qed
  then show ?thesis by (simp add: run)
qed

lemma settleUploads_in_order:
  "snd (settleUploads fs [] ts w) = foldl (\<lambda>w1 t. runUpload fs t w1) w ts"
proof (induction ts arbitrary: w)
  case Nil
  show ?case by (simp add: settleUploads.simps [of fs "[]" "[]" w] pendingUploads_def)
next
  case (Cons t ts)
  show ?case by (simp add: settleUploads_runUpload Cons.IH)
qed

lemma uploadResume_same:
  "galleryStore w1 = galleryStore w \<Longrightarrow> filesystemStore w1 = filesystemStore w \<Longrightarrow>
   fst (uploadResume fs t w1) = fst (uploadResume fs t w) \<and>
   galleryStore (snd (uploadResume fs t w1)) = galleryStore (snd (uploadResume fs t w)) \<and>
   filesystemStore (snd (uploadResume fs t w1)) = filesystemStore (snd (uploadResume fs t w))"
  by (cases t) (auto simp: logged_def called_def split: sum.splits)

lemma runUpload_same:
  assumes "galleryStore w1 = galleryStore w" "filesystemStore w1 = filesystemStore w"
  shows "galleryStore (runUpload fs t w1) = galleryStore (runUpload fs t w) \<and>
         filesystemStore (runUpload fs t w1) = filesystemStore (runUpload fs t w)"
proof -
  obtain ta wa where a: "uploadResume fs t w = (ta, wa)" by (cases "uploadResume fs t w")
  obtain tb wb where b: "uploadResume fs t w1 = (tb, wb)" by (cases "uploadResume fs t w1")
  from uploadResume_same [OF assms, of fs t] a b
  have 1: "tb = ta" "galleryStore wb = galleryStore wa" "filesystemStore wb = filesystemStore wa"
    by simp_all
  obtain ta2 wa2 where a2: "uploadResume fs ta wa = (ta2, wa2)" by (cases "uploadResume fs ta wa")
  obtain tb2 wb2 where b2: "uploadResume fs ta wb = (tb2, wb2)" by (cases "uploadResume fs ta wb")
  from uploadResume_same [OF 1(2,3), of fs ta] a2 b2
  have 2: "tb2 = ta2" "galleryStore wb2 = galleryStore wa2"
    "filesystemStore wb2 = filesystemStore wa2"
    by simp_all
  obtain ta3 wa3 where a3: "uploadResume fs ta2 wa2 = (ta3, wa3)"
    by (cases "uploadResume fs ta2 wa2")
  obtain tb3 wb3 where b3: "uploadResume fs ta2 wb2 = (tb3, wb3)"
    by (cases "uploadResume fs ta2 wb2")
  from uploadResume_same [OF 2(2,3), of fs ta2] a3 b3
  have 3: "galleryStore wb3 = galleryStore wa3" "filesystemStore wb3 = filesystemStore wa3"
    by simp_all
  show ?thesis using 1 2 3 a b a2 b2 a3 b3 by (simp add: runUpload_def)
qed

lemma runUpload_gallery: "galleryStore (runUpload fs t w) = galleryStore w"
proof -
  obtain t1 w1 where r1: "uploadResume fs t w = (t1, w1)" by (cases "uploadResume fs t w")
  obtain t2 w2 where r2: "uploadResume fs t1 w1 = (t2, w2)" by (cases "uploadResume fs t1 w1")
  obtain t3 w3 where r3: "uploadResume fs t2 w2 = (t3, w3)" by (cases "uploadResume fs t2 w2")
  from uploadResume_frame [OF r1] uploadResume_frame [OF r2] uploadResume_frame [OF r3]
  show ?thesis by (simp add: runUpload_def r1 r2 r3)
qed

lemma upload_runUpload:
  "snd (uploadImageToWNFS fs f w) = runUpload fs (fst (uploadStart f w)) (snd (uploadStart f w))"
  using uploadAmid_alone [of fs f w] uploadAmid_runUpload [of fs f w] by simp

lemma uploadStart_same:
  "galleryStore (snd (uploadStart f w)) = galleryStore w \<and>
   filesystemStore (snd (uploadStart f w)) = filesystemStore w"
  by (simp add: uploadStart_cases)

lemma in_order_uploadEach:
  "galleryStore w1 = galleryStore w \<Longrightarrow> filesystemStore w1 = filesystemStore w \<Longrightarrow>
   galleryStore (foldl (\<lambda>w1 t. runUpload fs t w1) w1 (map (\<lambda>f. fst (uploadStart f w)) files))
     = galleryStore (uploadEach fs files w) \<and>
   filesystemStore (foldl (\<lambda>w1 t. runUpload fs t w1) w1 (map (\<lambda>f. fst (uploadStart f w)) files))
     = filesystemStore (uploadEach fs files w)"
proof (induction files arbitrary: w w1)
  case Nil
  then show ?case by (simp add: uploadEach_def)
next
  case (Cons f files)
  let ?t = "fst (uploadStart f w)"
  let ?w2 = "snd (uploadImageToWNFS fs f w)"
  have w2: "?w2 = runUpload fs ?t (snd (uploadStart f w))" by (rule upload_runUpload)
  have s: "galleryStore w1 = galleryStore (snd (uploadStart f w))"
    "filesystemStore w1 = filesystemStore (snd (uploadStart f w))"
    using Cons.prems uploadStart_same [of f w] by simp_all
  have same: "galleryStore (runUpload fs ?t w1) = galleryStore ?w2"
    "filesystemStore (runUpload fs ?t w1) = filesystemStore ?w2"
    unfolding w2 using runUpload_same [OF s, of fs ?t] by simp_all
  have g: "galleryStore ?w2 = galleryStore w"
    unfolding w2 using runUpload_gallery [of fs ?t "snd (uploadStart f w)"] uploadStart_same [of f w]
    by simp
  have tasks: "map (\<lambda>f. fst (uploadStart f w)) files = map (\<lambda>f. fst (uploadStart f ?w2)) files"
    using uploadStart_shift [OF g] by simp
  have e: "uploadEach fs (f # files) w = uploadEach fs files ?w2"
    by (simp add: uploadEach_def)
  show ?case
    unfolding e using Cons.IH [OF same] by (simp add: tasks)
qed

lemma settleUploads_in_order_uploadEach:
  "galleryStore (snd (settleUploads fs [] (fst (startUploads files w)) (snd (startUploads files w))))
     = galleryStore (uploadEach fs files w) \<and>
   filesystemStore (snd (settleUploads fs [] (fst (startUploads files w)) (snd (startUploads files w))))
     = filesystemStore (uploadEach fs files w)"
proof -
  have s: "galleryStore (snd (startUploads files w)) = galleryStore w"
    "filesystemStore (snd (startUploads files w)) = filesystemStore w"
    by (simp_all add: startUploads_shift [of w w])
  show ?thesis
    unfolding settleUploads_in_order startUploads_tasks
    by (rule in_order_uploadEach [OF s])
qed

lemma nextUpload_single [simp]: "nextUpload sched [0] = 0"
  by (cases sched) (simp_all add: nextUpload_def)

lemma settleUploads_single:
  "settleUploads fs sched [t] w =
     (if t = Settled then ([t], w)
      else case uploadResume fs t w of (t1, w1) \<Rightarrow> settleUploads fs (tl sched) [t1] w1)"
  by (subst settleUploads.simps) (simp add: pendingUploads_def)

lemma settleUploads_single_three:
  "snd (settleUploads fs sched [t] w) =
     (case uploadResume fs t w of (t1, w1) \<Rightarrow>
      case uploadResume fs t1 w1 of (t2, w2) \<Rightarrow>
      case uploadResume fs t2 w2 of (t3, w3) \<Rightarrow> w3)"
proof -
  obtain t1 w1 where r1: "uploadResume fs t w = (t1, w1)" by (cases "uploadResume fs t w")
  obtain t2 w2 where r2: "uploadResume fs t1 w1 = (t2, w2)" by (cases "uploadResume fs t1 w1")
  obtain t3 w3 where r3: "uploadResume fs t2 w2 = (t3, w3)" by (cases "uploadResume fs t2 w2")
  have a1: "awaitsLeft t1 < awaitsLeft t \<or> (t = Settled \<and> t1 = Settled \<and> w1 = w)"
    using uploadResume_awaitsLeft [of t fs w] r1 by (cases "t = Settled") auto
  have a2: "awaitsLeft t2 < awaitsLeft t1 \<or> (t1 = Settled \<and> t2 = Settled \<and> w2 = w1)"
    using uploadResume_awaitsLeft [of t1 fs w1] r2 by (cases "t1 = Settled") auto
  have a3: "awaitsLeft t3 < awaitsLeft t2 \<or> (t2 = Settled \<and> t3 = Settled \<and> w3 = w2)"
    using uploadResume_awaitsLeft [of t2 fs w2] r3 by (cases "t2 = Settled") auto
  have le: "awaitsLeft t \<le> 3" by (cases t) simp_all
  have z: "awaitsLeft t3 = 0" using a1 a2 a3 le by auto
  then have t3: "t3 = Settled" by (cases t3) simp_all
  have "snd (settleUploads fs sched [t] w) = w3"
  proof (cases "t = Settled")
    case True
    then show ?thesis using r1 r2 r3 by (simp add: settleUploads_single)
  next
    case f1: False
    show ?thesis
    proof (cases "t1 = Settled")
      case True
      then show ?thesis using f1 r1 r2 r3 by (simp add: settleUploads_single)
    next
      case f2: False
      show ?thesis
      proof (cases "t2 = Settled")
        case True
        then show ?thesis using f1 f2 r1 r2 r3 by (simp add: settleUploads_single)
      next
        case f3: False
        then show ?thesis using f1 f2 r1 r2 r3 t3 by (simp add: settleUploads_single)
      qed
    qed
  qed
  then show ?thesis by (simp add: r1 r2 r3)
qed

lemma handleFileInput_single:
  "handleFileInput fs sched [img] w = getImagesFromWNFS fs (snd (uploadImageToWNFS fs img w))"
proof -
  obtain t0 w0 where s: "uploadStart img w = (t0, w0)" by (cases "uploadStart img w")
  have "snd (settleUploads fs sched [t0] w0) = uploadAmid fs (\<lambda>x. x) (\<lambda>x. x) (\<lambda>x. x) img w"
    by (simp add: settleUploads_single_three uploadAmid_def s)
  then show ?thesis
    by (cases "settleUploads fs sched [t0] w0")
       (simp add: handleFileInput_def andThen_def s uploadAmid_alone)
qed

text \<open>
  C8. \<^verbatim>\<open>handleFileInput\<close> begins the upload of every file, in the order of the files and
  before any upload is resumed: the tasks and the events of the beginning are those of
  the beginning of \<^verbatim>\<open>uploadImageToWNFS\<close> for each file, an upload being its beginning
  followed by its resumptions. Whatever the schedule, what follows is an interleaving of
  resumptions of these uploads, each a step of its upload, at the end of which every
  upload has settled, whichever failed; resumed in the order of the files, the uploads
  leave the gallery state and the store as the uploads of the files one after another do.
  Then comes one call of \<^verbatim>\<open>getImagesFromWNFS\<close> on the world the uploads leave: the whole
  call begins as many uploads as there are files and one refresh, and it resolves. For a
  single file the uploads are the one call of \<^verbatim>\<open>uploadImageToWNFS\<close>.
\<close>

theorem batch_upload_then_one_refresh:
  "fst (startUploads files w) = map (\<lambda>f. fst (uploadStart f w)) files \<and>
   eventsSince w (snd (startUploads files w))
     = concat (map (\<lambda>f. eventsSince w (snd (uploadStart f w))) files) \<and>
   snd (uploadImageToWNFS fs img w)
     = runUpload fs (fst (uploadStart img w)) (snd (uploadStart img w)) \<and>
   length (fst (startUploads files w)) = length files \<and>
   imageLogs (eventsSince w (snd (startUploads files w))) = length files \<and>
   (\<exists>ks. list_all (\<lambda>k. k < length files) ks \<and>
      settleUploads fs sched (fst (startUploads files w)) (snd (startUploads files w))
        = foldl (resumeAt fs) (startUploads files w) ks) \<and>
   fst (settleUploads fs sched (fst (startUploads files w)) (snd (startUploads files w)))
     = replicate (length files) Settled \<and>
   galleryStore (snd (settleUploads fs [] (fst (startUploads files w)) (snd (startUploads files w))))
     = galleryStore (uploadEach fs files w) \<and>
   filesystemStore (snd (settleUploads fs [] (fst (startUploads files w)) (snd (startUploads files w))))
     = filesystemStore (uploadEach fs files w) \<and>
   handleFileInput fs sched files w =
     getImagesFromWNFS fs
       (snd (settleUploads fs sched (fst (startUploads files w)) (snd (startUploads files w)))) \<and>
   fst (handleFileInput fs sched files w) = Inr () \<and>
   imageLogs (eventsSince w (snd (handleFileInput fs sched files w))) = length files \<and>
   refreshes (eventsSince w (snd (handleFileInput fs sched files w))) = 1 \<and>
   handleFileInput fs sched [img] w = getImagesFromWNFS fs (snd (uploadImageToWNFS fs img w))"
proof -
  obtain ts w1 where a: "startUploads files w = (ts, w1)" by (cases "startUploads files w")
  obtain ts2 w2 where b: "settleUploads fs sched ts w1 = (ts2, w2)"
    by (cases "settleUploads fs sched ts w1")
  from startUploads_frame [OF a] obtain es1 where
    1: "length ts = length files" "trace w1 = trace w @ es1" "refreshes es1 = 0"
       "imageLogs es1 = length files"
    by blast
  from settleUploads_frame [OF b] obtain es2 where
    2: "ts2 = replicate (length ts) Settled" "trace w2 = trace w1 @ es2" "refreshes es2 = 0"
       "imageLogs es2 = 0"
    by blast
  have h: "handleFileInput fs sched files w = getImagesFromWNFS fs w2"
    by (simp add: handleFileInput_def andThen_def a b)
  obtain es3 where 3: "trace (snd (getImagesFromWNFS fs w2)) = trace w2 @ es3"
    using getImagesFromWNFS_trace [of fs w2] by blast
  have e3: "eventsSince w2 (snd (getImagesFromWNFS fs w2)) = es3"
    using 3 by (simp add: eventsSince_def)
  have r3: "refreshes es3 = 1" using refreshes_load [of w2 fs] e3 by simp
  have i3: "imageLogs es3 = 0"
    using e3 by (cases rule: getImagesFromWNFS_cases [of fs w2])
      (auto simp: eventsSince_def imageLogs_def filter_getCalls)
  have ev: "eventsSince w (snd (handleFileInput fs sched files w)) = es1 @ es2 @ es3"
    unfolding h using 1 2 3 by (simp add: eventsSince_def)
  have c: "refreshes (es1 @ es2 @ es3) = 1" "imageLogs (es1 @ es2 @ es3) = length files"
    using 1 2 r3 i3 by (simp_all add: refreshes_def imageLogs_def)
  have il: "imageLogs (eventsSince w w1) = length files"
    using 1 by (simp add: eventsSince_def)
  obtain ks where ks: "list_all (\<lambda>k. k < length ts) ks"
    "settleUploads fs sched ts w1 = foldl (resumeAt fs) (ts, w1) ks"
    using settleUploads_interleaving [of ts fs sched w1] by blast
  have inter: "\<exists>ks. list_all (\<lambda>k. k < length files) ks \<and>
      settleUploads fs sched (fst (startUploads files w)) (snd (startUploads files w))
        = foldl (resumeAt fs) (startUploads files w) ks"
    using ks 1(1) by (auto simp: a)
  have settled: "fst (settleUploads fs sched (fst (startUploads files w))
      (snd (startUploads files w))) = replicate (length files) Settled"
    using 1(1) 2(1) by (simp add: a b)
  have load: "handleFileInput fs sched files w =
     getImagesFromWNFS fs
       (snd (settleUploads fs sched (fst (startUploads files w)) (snd (startUploads files w))))"
    using h by (simp add: a b)
  have resolved: "fst (handleFileInput fs sched files w) = Inr ()"
    unfolding h by (rule getImagesFromWNFS_resolves)
  have len: "length (fst (startUploads files w)) = length files" using 1(1) by (simp add: a)
  have begun: "imageLogs (eventsSince w (snd (startUploads files w))) = length files"
    using il by (simp add: a)
  have counts: "imageLogs (eventsSince w (snd (handleFileInput fs sched files w))) = length files"
    "refreshes (eventsSince w (snd (handleFileInput fs sched files w))) = 1"
    unfolding ev using c by simp_all
  note in_order = settleUploads_in_order_uploadEach [of fs files w]
  show ?thesis
    using startUploads_tasks [of files w] startUploads_events [of w files]
      upload_runUpload [of fs img w] len begun inter settled
      in_order [THEN conjunct1] in_order [THEN conjunct2]
      load resolved counts handleFileInput_single [of fs sched img w]
    by (intro conjI)
qed

text \<open>
  A batch of two files, the first of a name that is taken: the first upload fails, the
  second succeeds, and there is one refresh, which lists both files of the gallery.
\<close>

lemma batch_example:
  "map_option (map name) (publicImages (galleryStore (snd
      (handleFileInput memFS [1, 0, 1] [aFile, cFile] (memWorld PUBLIC [aJpg] [])))))
     = Some [''c.jpg'', ''a.jpg''] \<and>
   refreshes (eventsSince (memWorld PUBLIC [aJpg] []) (snd
      (handleFileInput memFS [1, 0, 1] [aFile, cFile] (memWorld PUBLIC [aJpg] [])))) = 1"
  by (simp add: handleFileInput_def getImagesFromWNFS_def getImagesFromWNFS_try_def run_defs
      settleUploads.simps pendingUploads_def nextUpload_def uploadStart_cases logged_def called_def
      mem_defs cFile_def aFile_def aJpg_def file_size_def eventsSince_def refreshes_def
      galleryFile_def getPath_cases
      existsError_def)

subsection \<open>The inline representation\<close>

lemma alphabet_length: "length base64Alphabet = 64"
  by (simp add: base64Alphabet_def)

lemma alphabet_distinct: "distinct base64Alphabet"
  by (simp add: base64Alphabet_def)

lemma indexOf_nth: "distinct xs \<Longrightarrow> n < length xs \<Longrightarrow> indexOf (xs ! n) xs = n"
proof (induction xs arbitrary: n)
  case Nil
  then show ?case by simp
next
  case (Cons x xs)
  then show ?case by (cases n) auto
qed

lemma base64Index_Char: "n < 64 \<Longrightarrow> base64Index (base64Char n) = n"
  by (simp add: base64Index_def base64Char_def indexOf_nth alphabet_distinct alphabet_length)

lemma base64Char_in: "n < 64 \<Longrightarrow> base64Char n \<in> set base64Alphabet"
  by (simp add: base64Char_def alphabet_length)

lemma base64Char_not_pad: "n < 64 \<Longrightarrow> base64Char n \<noteq> CHR ''=''"
proof -
  have "CHR ''='' \<notin> set base64Alphabet" by (simp add: base64Alphabet_def)
  then show "n < 64 \<Longrightarrow> base64Char n \<noteq> CHR ''=''" using base64Char_in by metis
qed

lemma base64Char_not_space: "n < 64 \<Longrightarrow> base64Char n \<noteq> CHR '' ''"
proof -
  have "CHR '' '' \<notin> set base64Alphabet" by (simp add: base64Alphabet_def)
  then show "n < 64 \<Longrightarrow> base64Char n \<noteq> CHR '' ''" using base64Char_in by metis
qed

lemma div_pack: "(y::nat) < n \<Longrightarrow> (x * n + y) div n = x"
  by simp

lemma mod_pack: "(y::nat) < n \<Longrightarrow> (x * n + y) mod n = y"
  by simp

lemma sextet_bounds:
  fixes a b c :: nat
  assumes "a < 256" "b < 256" "c < 256"
  shows "a div 4 < 64" and "(a mod 4) * 16 + b div 16 < 64"
    and "(b mod 16) * 4 + c div 64 < 64" and "c mod 64 < 64"
    and "(a mod 4) * 16 < 64" and "(b mod 16) * 4 < 64"
proof -
  have x: "a mod 4 < 4" and y: "b div 16 < 16" and u: "b mod 16 < 16" and z: "c div 64 < 4"
    using assms by (simp_all add: less_mult_imp_div_less)
  show "a div 4 < 64" using assms by (simp add: less_mult_imp_div_less)
  show "(a mod 4) * 16 + b div 16 < 64" using x y by linarith
  show "(b mod 16) * 4 + c div 64 < 64" using u z by linarith
  show "c mod 64 < 64" by simp
  show "(a mod 4) * 16 < 64" using x by linarith
  show "(b mod 16) * 4 < 64" using u by linarith
qed

lemma octets:
  fixes a b c :: nat
  assumes "b < 256" "c < 256"
  shows "a div 4 * 4 + ((a mod 4) * 16 + b div 16) div 16 = a"
    and "((a mod 4) * 16 + b div 16) mod 16 * 16 + ((b mod 16) * 4 + c div 64) div 4 = b"
    and "((b mod 16) * 4 + c div 64) mod 4 * 64 + c mod 64 = c"
    and "a div 4 * 4 + ((a mod 4) * 16) div 16 = a"
    and "((a mod 4) * 16 + b div 16) mod 16 * 16 + ((b mod 16) * 4) div 4 = b"
proof -
  have y: "b div 16 < 16" and z: "c div 64 < 4"
    using assms by (simp_all add: less_mult_imp_div_less)
  show "a div 4 * 4 + ((a mod 4) * 16 + b div 16) div 16 = a"
    by (simp add: div_pack [OF y])
  show "((a mod 4) * 16 + b div 16) mod 16 * 16 + ((b mod 16) * 4 + c div 64) div 4 = b"
    using y z by (simp add: div_pack [OF z])
  show "((b mod 16) * 4 + c div 64) mod 4 * 64 + c mod 64 = c"
    using z by simp
  show "a div 4 * 4 + ((a mod 4) * 16) div 16 = a"
    by simp
  show "((a mod 4) * 16 + b div 16) mod 16 * 16 + ((b mod 16) * 4) div 4 = b"
    using y by simp
qed

lemma atobCodes_btoaCodes:
  "\<forall>c \<in> set codes. c < 256 \<Longrightarrow> atobCodes (btoaCodes codes) = codes"
proof (induction codes rule: btoaCodes.induct)
  case 1
  show ?case by simp
next
  case (2 a)
  then have a: "a < 256" by simp
  note s = sextet_bounds [OF a a a]
  show ?case
    using octets(4) [OF a a, of a]
    by (simp add: base64Index_Char s base64Char_not_pad)
next
  case (3 a b)
  then have a: "a < 256" and b: "b < 256" by simp_all
  note s = sextet_bounds [OF a b b]
  show ?case
    using octets(1,5) [OF b b, of a]
    by (simp add: base64Index_Char s base64Char_not_pad)
next
  case (4 a b c rest)
  then have a: "a < 256" and b: "b < 256" and c: "c < 256"
    and r: "\<forall>c \<in> set rest. c < 256"
    by simp_all
  note s = sextet_bounds [OF a b c]
  show ?case
    using octets(1,2) [OF b c, of a] octets(3) [OF b c] "4.IH" [OF r]
    by (simp add: base64Index_Char s base64Char_not_pad)
qed

lemma btoaCodes_no_space:
  "\<forall>c \<in> set codes. c < 256 \<Longrightarrow>
   dropWhile (\<lambda>c. c = CHR '' '') (btoaCodes codes) = btoaCodes codes"
proof (cases codes rule: btoaCodes.cases)
  case 1
  then show ?thesis by simp
next
  case (2 a)
  assume "\<forall>c \<in> set codes. c < 256"
  with 2 have "a div 4 < 64" by (simp add: less_mult_imp_div_less)
  with 2 show ?thesis by (simp add: base64Char_not_space)
next
  case (3 a b)
  assume "\<forall>c \<in> set codes. c < 256"
  with 3 have "a div 4 < 64" by (simp add: less_mult_imp_div_less)
  with 3 show ?thesis by (simp add: base64Char_not_space)
next
  case (4 a b c rest)
  assume "\<forall>c \<in> set codes. c < 256"
  with 4 have "a div 4 < 64" by (simp add: less_mult_imp_div_less)
  with 4 show ?thesis by (simp add: base64Char_not_space)
qed

lemma dataUrlPayload_imageSrc:
  "dataUrlPayload (imageSrc bytes) = btoa (convertUint8ToString bytes)"
proof -
  have "\<forall>c \<in> set (map of_char (convertUint8ToString bytes) :: nat list). c < 256"
    by (simp add: convertUint8ToString_def)
  then show ?thesis
    unfolding dataUrlPayload_def imageSrc_def btoa_def
    by (simp add: btoaCodes_no_space)
qed

lemma unat_byte: "unat (b :: byte) mod 256 = unat b"
proof -
  have "unat b < 2 ^ LENGTH(8)" by (rule unsigned_less)
  then show ?thesis by simp
qed

text \<open>
  The test vectors of RFC 4648, and the encoding of one, two and three bytes.
\<close>

lemma btoa_test_vectors:
  "btoa ''f'' = ''Zg==''" "btoa ''fo'' = ''Zm8=''" "btoa ''foo'' = ''Zm9v''"
  "btoa ''foob'' = ''Zm9vYg==''" "btoa ''fooba'' = ''Zm9vYmE=''" "btoa ''foobar'' = ''Zm9vYmFy''"
  by (simp_all add: btoa_def base64Char_def base64Alphabet_def)

lemma imageSrc_examples:
  "imageSrc [77, 97, 110] = ''data:image/jpeg;base64, TWFu''"
  "imageSrc [77, 97] = ''data:image/jpeg;base64, TWE=''"
  "imageSrc [255] = ''data:image/jpeg;base64, /w==''"
  by (simp_all add: imageSrc_def convertUint8ToString_def btoa_def base64Char_def
      base64Alphabet_def)

text \<open>
  C9. The inline representation that \<^verbatim>\<open>getImagesFromWNFS\<close> builds of the content of a
  file is a data URL that holds the bytes in Base64, and it loses nothing: decoding the
  representation of any sequence of bytes gives the sequence back.
\<close>

theorem image_src_round_trip: "dataUrlBytes (imageSrc bytes) = bytes"
proof -
  have c: "\<forall>c \<in> set (map of_char (convertUint8ToString bytes) :: nat list). c < 256"
    by (simp add: convertUint8ToString_def)
  have "atob (btoa (convertUint8ToString bytes)) = convertUint8ToString bytes"
    unfolding atob_def btoa_def atobCodes_btoaCodes [OF c]
    by (simp add: comp_def)
  then show ?thesis
    unfolding dataUrlBytes_def dataUrlPayload_imageSrc
    by (simp add: convertUint8ToString_def comp_def unat_byte)
qed

end
